theory Spec2Isabelle
  imports Complex_Main "HOL-Library.Word" "HOL-Library.Signed_Division"
begin

section \<open>The siddecfp decoder element (gst-plugin/gstsiddecfp.cc)\<close>

text \<open>
  A shallow embedding of the streaming part of the element: the unit converter
  \<open>gst_siddecfp_src_convert\<close>, the ingest function \<open>gst_siddecfp_chain\<close>, the ROM
  properties of \<open>gst_siddecfp_set_property\<close>, the negotiation \<open>siddecfp_negotiate\<close>, the
  session start \<open>start_play_tune\<close> and one iteration of the production task \<open>play_loop\<close>.

  C integers keep their width: \<open>gint\<close>, \<open>guint\<close> and \<open>uint_least32_t\<close> are 32-bit
  words, \<open>gint64\<close> and \<open>guint64\<close> are 64-bit words; \<open>sint\<close> reads a word as signed,
  \<open>uint\<close> and \<open>unat\<close> as unsigned. What the element does to the pipeline (events pushed,
  messages posted, buffers pushed, calls into libsidplayfp) is recorded, in order, in a log
  that is part of the state.
\<close>

subsection \<open>Machine integers and framework constants\<close>

type_synonym gint = "32 word"
type_synonym guint = "32 word"
type_synonym gint64 = "64 word"
type_synonym guint64 = "64 word"
type_synonym guint8 = "8 word"

text \<open>\<open>G_MAXUINT64\<close>, also the value of \<open>GST_BUFFER_OFFSET_NONE\<close> and \<open>GST_CLOCK_TIME_NONE\<close>.\<close>

definition G_MAXUINT64 :: guint64 where
  "G_MAXUINT64 = - 1"

definition G_MAXUINT :: guint where
  "G_MAXUINT = - 1"

text \<open>
  Modelled from the spec: \<open>GST_SECOND\<close> is the \<open>TIME_UNIT\<close> of the conversion rules (4.4).
  The framework's header that defines it is not in the repository; the framework counts
  time in nanoseconds, and the converter passes the constant as a \<open>gint\<close>.
\<close>

definition GST_SECOND :: gint where
  "GST_SECOND = 1000000000"

definition DEFAULT_BLOCKSIZE :: guint where
  "DEFAULT_BLOCKSIZE = 4096"

definition MAX_SID_TUNE_BUF_SIZE :: gint where
  "MAX_SID_TUNE_BUF_SIZE = 8 * DEFAULT_BLOCKSIZE"

text \<open>The stream formats of the framework (\<open>GstFormat\<close>); \<open>GST_FORMAT_DEFAULT\<close> counts samples.\<close>

datatype GstFormat =
    GST_FORMAT_UNDEFINED
  | GST_FORMAT_DEFAULT
  | GST_FORMAT_BYTES
  | GST_FORMAT_TIME
  | GST_FORMAT_BUFFERS
  | GST_FORMAT_PERCENT

text \<open>
  Modelled from the spec: the results of a push (\<open>GstFlowReturn\<close>) are the framework's,
  its header is not in the repository; the spec (4.5, 7) names OK, end of stream, not
  linked and other failures. \<open>flow_value\<close> is the framework's numbering of the codes, which
  \<open>play_loop\<close> relies on when it compares \<open>ret < GST_FLOW_EOS\<close>.
\<close>

datatype GstFlowReturn =
    GST_FLOW_CUSTOM_SUCCESS_2
  | GST_FLOW_CUSTOM_SUCCESS_1
  | GST_FLOW_CUSTOM_SUCCESS
  | GST_FLOW_OK
  | GST_FLOW_NOT_LINKED
  | GST_FLOW_FLUSHING
  | GST_FLOW_EOS
  | GST_FLOW_NOT_NEGOTIATED
  | GST_FLOW_ERROR
  | GST_FLOW_NOT_SUPPORTED
  | GST_FLOW_CUSTOM_ERROR
  | GST_FLOW_CUSTOM_ERROR_1
  | GST_FLOW_CUSTOM_ERROR_2

fun flow_value :: "GstFlowReturn \<Rightarrow> int" where
  "flow_value GST_FLOW_CUSTOM_SUCCESS_2 = 102"
| "flow_value GST_FLOW_CUSTOM_SUCCESS_1 = 101"
| "flow_value GST_FLOW_CUSTOM_SUCCESS = 100"
| "flow_value GST_FLOW_OK = 0"
| "flow_value GST_FLOW_NOT_LINKED = - 1"
| "flow_value GST_FLOW_FLUSHING = - 2"
| "flow_value GST_FLOW_EOS = - 3"
| "flow_value GST_FLOW_NOT_NEGOTIATED = - 4"
| "flow_value GST_FLOW_ERROR = - 5"
| "flow_value GST_FLOW_NOT_SUPPORTED = - 6"
| "flow_value GST_FLOW_CUSTOM_ERROR = - 100"
| "flow_value GST_FLOW_CUSTOM_ERROR_1 = - 101"
| "flow_value GST_FLOW_CUSTOM_ERROR_2 = - 102"

text \<open>
  Modelled from the spec: \<open>gst_util_uint64_scale_int (val, num, denom)\<close> is the framework's
  and not in the repository. The spec (4.4) describes it: a 64-bit-safe scaled multiply
  then divide, \<open>val * num / denom\<close> with no truncation before the divide. Its result is a
  \<open>guint64\<close>; for a quotient that does not fit the framework returns \<open>G_MAXUINT64\<close>, as it
  does when \<open>denom\<close> is not positive or \<open>num\<close> is negative (its argument checks).
\<close>

definition gst_util_uint64_scale_int :: "guint64 \<Rightarrow> gint \<Rightarrow> gint \<Rightarrow> guint64" where
  "gst_util_uint64_scale_int val num denom =
     (if sint denom \<le> 0 then G_MAXUINT64
      else if sint num < 0 then G_MAXUINT64
      else let q = (uint val * sint num) div sint denom
           in if q > 2 ^ 64 - 1 then G_MAXUINT64 else word_of_int q)"

subsection \<open>The element's data\<close>

text \<open>
  \<open>SidConfig\<close> of libsidplayfp, the fields the element sets. \<open>playback\<close> holds the
  enumeration value of \<open>playback_t\<close>.

  Modelled from the spec: the values of \<open>MONO\<close> and \<open>STEREO\<close> are libsidplayfp's, its
  header is not in the repository. They are the channel counts 1 and 2: the converter
  computes \<open>(16 >> 3) * playback\<close> for what the spec (4.4) calls
  \<open>bytes_per_sample = 2 * channel_count\<close>.
\<close>

record SidConfig =
  frequency :: guint
  playback :: gint
  defaultC64Model :: gint
  defaultSidModel :: gint
  ciaModel :: gint
  forceSidModel :: bool
  forceC64Model :: bool
  samplingMethod :: gint
  digiBoost :: bool

definition MONO :: gint where
  "MONO = 1"

definition STEREO :: gint where
  "STEREO = 2"

datatype SidDecFpEmulation = SIDDECFP_EMULATION_RESIDFP | SIDDECFP_EMULATION_RESID

text \<open>
  An output buffer: its allocated size and its four stamps. A fresh buffer has all stamps
  unset, which the framework encodes as \<open>G_MAXUINT64\<close>.
\<close>

record GstBuffer =
  buf_size :: guint
  buf_offset :: guint64
  buf_timestamp :: guint64
  buf_offset_end :: guint64
  buf_duration :: guint64

definition gst_buffer_new_and_alloc :: "guint \<Rightarrow> GstBuffer" where
  "gst_buffer_new_and_alloc n =
     \<lparr>buf_size = n, buf_offset = G_MAXUINT64, buf_timestamp = G_MAXUINT64,
      buf_offset_end = G_MAXUINT64, buf_duration = G_MAXUINT64\<rparr>"

text \<open>The audio sample formats a downstream candidate can name.\<close>

datatype GstAudioFormat =
    GST_AUDIO_FORMAT_UNKNOWN
  | GST_AUDIO_FORMAT_ENCODED
  | GST_AUDIO_FORMAT_S8
  | GST_AUDIO_FORMAT_U8
  | GST_AUDIO_FORMAT_S16
  | GST_AUDIO_FORMAT_S16_OTHER_ENDIAN
  | GST_AUDIO_FORMAT_U16
  | GST_AUDIO_FORMAT_S24
  | GST_AUDIO_FORMAT_S32
  | GST_AUDIO_FORMAT_F32
  | GST_AUDIO_FORMAT_F64

text \<open>What the element sends to the pipeline and to libsidplayfp, in the order it does.\<close>

datatype GstEvent =
    EventStreamStart "guint option"
  | EventCaps GstAudioFormat guint gint
  | EventSegment
  | EventTag
  | EventEos

datatype ErrorMessage =
    CouldNotSelectSong
  | CouldNotLoadTune
  | CouldNotNegotiateFormat
  | CouldNotCreateBuilder
  | InputDataTooBig
  | FlowError GstFlowReturn

datatype Rom = Kernal | Basic | Chargen

datatype Action =
    TuneRead gint
  | SelectSong gint
  | PlayerLoad
  | GetAllowedCaps
  | PushEvent GstEvent
  | CreateBuilder SidDecFpEmulation
  | PlayerSetRom Rom
  | PlayerConfig
  | PostError ErrorMessage
  | StartTask
  | PlayerPlay guint
  | PushBuffer GstBuffer
  | PauseTask

text \<open>
  The element instance (\<open>struct _GstSidDecFp\<close>), with the log of its actions and whether
  the production task of the source pad is running.
\<close>

record GstSidDecFp =
  have_group_id :: bool
  group_id :: guint
  tune_buffer :: "guint8 list"
  tune_len :: gint
  tune_number :: gint
  total_bytes :: guint64
  emulation :: SidDecFpEmulation
  config :: SidConfig
  filter_on :: bool
  filter_curve_6581 :: real
  filter_curve_8580 :: real
  filter_bias :: real
  kernal :: "guint8 list option"
  basic :: "guint8 list option"
  chargen :: "guint8 list option"
  blocksize :: guint
  actions :: "Action list"
  task_running :: bool

subsection \<open>The unit converter\<close>

text \<open>
  \<open>gst_siddecfp_src_convert\<close>. \<open>None\<close> is the return value \<open>FALSE\<close>, with \<open>*dest_value\<close>
  not written. The division of BYTES by the sample width is C's signed division of a
  \<open>gint64\<close> by a \<open>gint\<close>; the products \<open>bytes_per_sample * frequency\<close> and
  \<open>scale * frequency\<close> are 32-bit.
\<close>

definition bytes_per_sample_of :: "SidConfig \<Rightarrow> gint" where
  "bytes_per_sample_of cfg = drop_bit 3 16 * playback cfg"

definition gst_siddecfp_src_convert ::
  "SidConfig \<Rightarrow> GstFormat \<Rightarrow> gint64 \<Rightarrow> GstFormat \<Rightarrow> gint64 option" where
  "gst_siddecfp_src_convert cfg src_format src_value dest_format =
     (if src_format = dest_format then Some src_value
      else
        let bytes_per_sample = bytes_per_sample_of cfg in
        case src_format of
          GST_FORMAT_BYTES \<Rightarrow>
            (case dest_format of
               GST_FORMAT_DEFAULT \<Rightarrow>
                 if bytes_per_sample = 0 then None
                 else Some (word_of_int (sint src_value sdiv sint bytes_per_sample))
             | GST_FORMAT_TIME \<Rightarrow>
                 let byterate = bytes_per_sample * frequency cfg in
                 if byterate = 0 then None
                 else Some (gst_util_uint64_scale_int src_value GST_SECOND byterate)
             | _ \<Rightarrow> None)
        | GST_FORMAT_DEFAULT \<Rightarrow>
            (case dest_format of
               GST_FORMAT_BYTES \<Rightarrow> Some (src_value * word_of_int (sint bytes_per_sample))
             | GST_FORMAT_TIME \<Rightarrow>
                 if frequency cfg = 0 then None
                 else Some (gst_util_uint64_scale_int src_value GST_SECOND (frequency cfg))
             | _ \<Rightarrow> None)
        | GST_FORMAT_TIME \<Rightarrow>
            (case dest_format of
               GST_FORMAT_BYTES \<Rightarrow>
                 Some (gst_util_uint64_scale_int src_value
                         (bytes_per_sample * frequency cfg) GST_SECOND)
             | GST_FORMAT_DEFAULT \<Rightarrow>
                 Some (gst_util_uint64_scale_int src_value (1 * frequency cfg) GST_SECOND)
             | _ \<Rightarrow> None)
        | _ \<Rightarrow> None)"

subsection \<open>The ROM properties\<close>

text \<open>
  \<open>copy_byte_array\<close>: the old array is freed first, whatever \<open>src\<close> is; the result is a copy
  of \<open>src\<close> when \<open>src\<close> is not \<open>NULL\<close> and has the expected length, and \<open>NULL\<close> otherwise.
  \<open>None\<close> is the \<open>NULL\<close> pointer.
\<close>

definition copy_byte_array ::
  "guint8 list option \<Rightarrow> guint8 list option \<Rightarrow> nat \<Rightarrow> guint8 list option" where
  "copy_byte_array old src expected_size =
     (case src of
        None \<Rightarrow> None
      | Some a \<Rightarrow> if length a \<noteq> expected_size then None else Some a)"

text \<open>
  The property identifiers and the value \<open>gst_siddecfp_set_property\<close> receives. A \<open>GValue\<close>
  is read through the getter of the property's type; the record has one field for each
  getter. A boxed byte array can be \<open>NULL\<close>. The enumeration value of the emulation is 0
  for ReSIDfp and 1 for ReSID. Every case but the default one ends with the call
  \<open>player->config\<close>.
\<close>

datatype PropId =
    PROP_0
  | PROP_EMULATION
  | PROP_TUNE
  | PROP_N_TUNES
  | PROP_FILTER
  | PROP_C64_MODEL
  | PROP_SID_MODEL
  | PROP_CIA_MODEL
  | PROP_FORCE_SID_MODEL
  | PROP_FORCE_C64_MODEL
  | PROP_SAMPLING_METHOD
  | PROP_DIGI_BOOST
  | PROP_FILTER_CURVE_6581
  | PROP_FILTER_CURVE_8580
  | PROP_FILTER_BIAS
  | PROP_KERNAL
  | PROP_BASIC
  | PROP_CHARGEN
  | PROP_BLOCKSIZE
  | PROP_METADATA

record GValue =
  g_enum :: gint
  g_int :: gint
  g_boolean :: bool
  g_double :: real
  g_uint :: guint
  g_boxed :: "guint8 list option"

definition emulation_of_enum :: "gint \<Rightarrow> SidDecFpEmulation" where
  "emulation_of_enum v =
     (if v = 0 then SIDDECFP_EMULATION_RESIDFP else SIDDECFP_EMULATION_RESID)"

definition player_config :: "GstSidDecFp \<Rightarrow> GstSidDecFp" where
  "player_config s = s\<lparr>actions := actions s @ [PlayerConfig]\<rparr>"

fun gst_siddecfp_set_property :: "PropId \<Rightarrow> GValue \<Rightarrow> GstSidDecFp \<Rightarrow> GstSidDecFp" where
  "gst_siddecfp_set_property PROP_EMULATION v s =
     player_config (s\<lparr>emulation := emulation_of_enum (g_enum v)\<rparr>)"
| "gst_siddecfp_set_property PROP_TUNE v s =
     player_config (s\<lparr>tune_number := g_int v\<rparr>)"
| "gst_siddecfp_set_property PROP_FILTER v s =
     player_config (s\<lparr>filter_on := g_boolean v\<rparr>)"
| "gst_siddecfp_set_property PROP_C64_MODEL v s =
     player_config (s\<lparr>config := (config s)\<lparr>defaultC64Model := g_enum v\<rparr>\<rparr>)"
| "gst_siddecfp_set_property PROP_SID_MODEL v s =
     player_config (s\<lparr>config := (config s)\<lparr>defaultSidModel := g_enum v\<rparr>\<rparr>)"
| "gst_siddecfp_set_property PROP_CIA_MODEL v s =
     player_config (s\<lparr>config := (config s)\<lparr>ciaModel := g_enum v\<rparr>\<rparr>)"
| "gst_siddecfp_set_property PROP_FORCE_SID_MODEL v s =
     player_config (s\<lparr>config := (config s)\<lparr>forceSidModel := g_boolean v\<rparr>\<rparr>)"
| "gst_siddecfp_set_property PROP_FORCE_C64_MODEL v s =
     player_config (s\<lparr>config := (config s)\<lparr>forceC64Model := g_boolean v\<rparr>\<rparr>)"
| "gst_siddecfp_set_property PROP_SAMPLING_METHOD v s =
     player_config (s\<lparr>config := (config s)\<lparr>samplingMethod := g_enum v\<rparr>\<rparr>)"
| "gst_siddecfp_set_property PROP_DIGI_BOOST v s =
     player_config (s\<lparr>config := (config s)\<lparr>digiBoost := g_boolean v\<rparr>\<rparr>)"
| "gst_siddecfp_set_property PROP_FILTER_CURVE_6581 v s =
     player_config (s\<lparr>filter_curve_6581 := g_double v\<rparr>)"
| "gst_siddecfp_set_property PROP_FILTER_CURVE_8580 v s =
     player_config (s\<lparr>filter_curve_8580 := g_double v\<rparr>)"
| "gst_siddecfp_set_property PROP_FILTER_BIAS v s =
     player_config (s\<lparr>filter_bias := g_double v\<rparr>)"
| "gst_siddecfp_set_property PROP_KERNAL v s =
     player_config (s\<lparr>kernal := copy_byte_array (kernal s) (g_boxed v) 8192\<rparr>)"
| "gst_siddecfp_set_property PROP_BASIC v s =
     player_config (s\<lparr>basic := copy_byte_array (basic s) (g_boxed v) 8192\<rparr>)"
| "gst_siddecfp_set_property PROP_CHARGEN v s =
     player_config (s\<lparr>chargen := copy_byte_array (chargen s) (g_boxed v) 4096\<rparr>)"
| "gst_siddecfp_set_property PROP_BLOCKSIZE v s =
     player_config (s\<lparr>blocksize := g_uint v\<rparr>)"
| "gst_siddecfp_set_property _ v s = s"

text \<open>The three ROM properties, with the size each must have.\<close>

fun rom_prop :: "Rom \<Rightarrow> PropId" where
  "rom_prop Kernal = PROP_KERNAL"
| "rom_prop Basic = PROP_BASIC"
| "rom_prop Chargen = PROP_CHARGEN"

fun rom_size :: "Rom \<Rightarrow> nat" where
  "rom_size Kernal = 8192"
| "rom_size Basic = 8192"
| "rom_size Chargen = 4096"

fun rom_field :: "Rom \<Rightarrow> GstSidDecFp \<Rightarrow> guint8 list option" where
  "rom_field Kernal s = kernal s"
| "rom_field Basic s = basic s"
| "rom_field Chargen s = chargen s"

text \<open>
  The element after \<open>gst_siddecfp_init\<close>: no tune bytes, no ROM, position 0, the default
  block size, and the configuration the player starts with (44100 Hz, mono).
\<close>

definition default_config :: SidConfig where
  "default_config =
     \<lparr>frequency = 44100, playback = MONO, defaultC64Model = 0, defaultSidModel = 0,
      ciaModel = 0, forceSidModel = False, forceC64Model = False, samplingMethod = 0,
      digiBoost = False\<rparr>"

definition gst_siddecfp_init :: GstSidDecFp where
  "gst_siddecfp_init =
     \<lparr>have_group_id = False, group_id = G_MAXUINT, tune_buffer = [], tune_len = 0,
      tune_number = 0, total_bytes = 0, emulation = SIDDECFP_EMULATION_RESIDFP,
      config = default_config, filter_on = False, filter_curve_6581 = 0,
      filter_curve_8580 = 0, filter_bias = 0, kernal = None, basic = None, chargen = None,
      blocksize = DEFAULT_BLOCKSIZE, actions = [], task_running = False\<rparr>"

subsection \<open>Ingest\<close>

text \<open>
  \<open>gst_siddecfp_chain\<close>. The chunk is the list of its bytes and \<open>size\<close> its length as a
  \<open>guint64\<close>. \<open>tune_len\<close> is a \<open>gint\<close>: it is converted to 64 bits for the comparison and
  the sum is cut back to 32 bits when stored. \<open>tune_buffer\<close> holds the bytes written so far,
  the first \<open>tune_len\<close> bytes of the fixed array of \<open>MAX_SID_TUNE_BUF_SIZE\<close> bytes.
\<close>

definition gst_siddecfp_chain :: "guint8 list \<Rightarrow> GstSidDecFp \<Rightarrow> GstFlowReturn \<times> GstSidDecFp" where
  "gst_siddecfp_chain buffer siddecfp =
     (let size = (word_of_nat (length buffer) :: guint64) in
      if (scast (tune_len siddecfp) :: guint64) + size > scast MAX_SID_TUNE_BUF_SIZE
      then (GST_FLOW_ERROR,
            siddecfp\<lparr>actions := actions siddecfp @ [PostError InputDataTooBig]\<rparr>)
      else (GST_FLOW_OK,
            siddecfp\<lparr>tune_buffer :=
                        take (nat (sint (tune_len siddecfp))) (tune_buffer siddecfp) @ buffer,
                      tune_len := ucast ((scast (tune_len siddecfp) :: guint64) + size)\<rparr>))"

text \<open>Upstream pushes the chunks one after the other and stops at the first refusal.\<close>

fun chain_all :: "guint8 list list \<Rightarrow> GstSidDecFp \<Rightarrow> GstFlowReturn \<times> GstSidDecFp" where
  "chain_all [] s = (GST_FLOW_OK, s)"
| "chain_all (b # bs) s =
     (let r = gst_siddecfp_chain b s
      in if fst r = GST_FLOW_OK then chain_all bs (snd r) else r)"

definition total_size :: "guint8 list list \<Rightarrow> nat" where
  "total_size bs = sum_list (map length bs)"

subsection \<open>Negotiation\<close>

text \<open>
  One candidate of the downstream capability set, as \<open>siddecfp_negotiate\<close> reads it:
  \<open>st_format\<close> is the audio format its format string names (\<open>None\<close> when it has no
  format string), \<open>st_rate\<close> and \<open>st_channels\<close> are its integer fields (\<open>None\<close> when the
  candidate does not declare one integer, so that \<open>gst_structure_get_int\<close> leaves the
  default in place).
\<close>

record GstStructure =
  st_format :: "GstAudioFormat option"
  st_rate :: "gint option"
  st_channels :: "gint option"

text \<open>
  What negotiation finds around the element: the allowed capability set of the source pad
  after normalisation (\<open>None\<close> when it cannot be obtained), the group id of the sink pad's
  sticky stream-start event (\<open>None\<close> when there is no such event, 0 when the event carries
  no group id) and the next fresh group id.
\<close>

record Downstream =
  allowed_caps :: "GstStructure list option"
  sticky_stream_start :: "guint option"
  next_group_id :: guint

definition siddecfp_negotiate :: "Downstream \<Rightarrow> GstSidDecFp \<Rightarrow> bool \<times> GstSidDecFp" where
  "siddecfp_negotiate env siddecfp0 =
     (let siddecfp = siddecfp0\<lparr>actions := actions siddecfp0 @ [GetAllowedCaps]\<rparr> in
      case allowed_caps env of
        None \<Rightarrow> (False, siddecfp)
      | Some [] \<Rightarrow> (False, siddecfp)
      | Some (structure # _) \<Rightarrow>
          (case st_format structure of
             None \<Rightarrow> (False, siddecfp)
           | Some format \<Rightarrow>
               if format \<noteq> GST_AUDIO_FORMAT_S16 then (False, siddecfp)
               else
                 let rate = (case st_rate structure of Some r \<Rightarrow> r | None \<Rightarrow> 44100);
                     channels = (case st_channels structure of Some c \<Rightarrow> c | None \<Rightarrow> 1);
                     cfg = (config siddecfp)
                             \<lparr>frequency := rate,
                              playback := (if channels = 1 then MONO else STEREO)\<rparr>;
                     have_id =
                       (case sticky_stream_start env of
                          Some g \<Rightarrow> g \<noteq> 0
                        | None \<Rightarrow> True);
                     id =
                       (case sticky_stream_start env of
                          Some g \<Rightarrow> g
                        | None \<Rightarrow>
                            if have_group_id siddecfp then group_id siddecfp
                            else next_group_id env)
                 in (True,
                     siddecfp
                       \<lparr>config := cfg, have_group_id := have_id, group_id := id,
                        actions := actions siddecfp @
                          [PushEvent (EventStreamStart (if have_id then Some id else None)),
                           PushEvent (EventCaps format (frequency cfg) (playback cfg)),
                           PlayerConfig]\<rparr>)))"

subsection \<open>Building the emulation backend\<close>

text \<open>
  \<open>create_builder\<close>. The status libsidplayfp's builder reports after its construction,
  after \<open>create\<close> and after \<open>filter\<close> comes from outside; each is checked with
  \<open>is_sidbuilder_valid\<close> before the next step.
\<close>

record BuilderStatus =
  status_new :: bool
  status_create :: bool
  status_filter :: bool

definition set_roms :: "GstSidDecFp \<Rightarrow> Action list" where
  "set_roms s =
     (if kernal s \<noteq> None then [PlayerSetRom Kernal] else []) @
     (if basic s \<noteq> None then [PlayerSetRom Basic] else []) @
     (if chargen s \<noteq> None then [PlayerSetRom Chargen] else [])"

definition create_builder :: "BuilderStatus \<Rightarrow> GstSidDecFp \<Rightarrow> bool \<times> GstSidDecFp" where
  "create_builder env siddecfp0 =
     (let siddecfp =
            siddecfp0\<lparr>actions := actions siddecfp0 @ [CreateBuilder (emulation siddecfp0)]\<rparr>
      in if \<not> status_new env then (False, siddecfp)
         else if \<not> status_create env then (False, siddecfp)
         else if \<not> status_filter env then (False, siddecfp)
         else (True,
               siddecfp\<lparr>actions := actions siddecfp @ set_roms siddecfp @ [PlayerConfig]\<rparr>))"

subsection \<open>Starting a session\<close>

text \<open>
  What \<open>start_play_tune\<close> gets from libsidplayfp and the pipeline: whether the song can be
  selected and loaded, the downstream side, the builder's status, whether the task can be
  started and whether the tune has an info block for the tags.
\<close>

record Session =
  select_song_ok :: bool
  load_ok :: bool
  downstream :: Downstream
  builder_status :: BuilderStatus
  start_task_ok :: bool
  tune_has_info :: bool

definition post_error :: "ErrorMessage \<Rightarrow> GstSidDecFp \<Rightarrow> GstSidDecFp" where
  "post_error e s = s\<lparr>actions := actions s @ [PostError e]\<rparr>"

definition update_tags :: "bool \<Rightarrow> GstSidDecFp \<Rightarrow> GstSidDecFp" where
  "update_tags has_info s =
     (if has_info then s\<lparr>actions := actions s @ [PushEvent EventTag]\<rparr> else s)"

definition start_play_tune :: "Session \<Rightarrow> GstSidDecFp \<Rightarrow> bool \<times> GstSidDecFp" where
  "start_play_tune env siddecfp0 =
     (let s1 = siddecfp0\<lparr>actions := actions siddecfp0 @
                  [TuneRead (tune_len siddecfp0), SelectSong (tune_number siddecfp0)]\<rparr>
      in if \<not> select_song_ok env then (False, post_error CouldNotSelectSong s1)
         else
           let s2 = s1\<lparr>actions := actions s1 @ [PlayerLoad]\<rparr>
           in if \<not> load_ok env then (False, post_error CouldNotLoadTune s2)
              else
                let n = siddecfp_negotiate (downstream env) s2
                in if \<not> fst n then (False, post_error CouldNotNegotiateFormat (snd n))
                   else
                     let b = create_builder (builder_status env) (snd n)
                     in if \<not> fst b then (False, post_error CouldNotCreateBuilder (snd b))
                        else
                          let s5 = (snd b)
                                \<lparr>actions := actions (snd b) @ [PushEvent EventSegment],
                                 total_bytes := 0,
                                 have_group_id := False,
                                 group_id := G_MAXUINT\<rparr>;
                              res = start_task_ok env;
                              s6 = s5\<lparr>actions := actions s5 @ [StartTask],
                                      task_running := (res \<or> task_running s5)\<rparr>
                          in (res, update_tags (tune_has_info env) s6))"

datatype SinkEvent = SINK_EVENT_EOS | SINK_EVENT_SEGMENT | SINK_EVENT_OTHER

fun gst_siddecfp_sink_event :: "Session \<Rightarrow> SinkEvent \<Rightarrow> GstSidDecFp \<Rightarrow> bool \<times> GstSidDecFp" where
  "gst_siddecfp_sink_event env SINK_EVENT_EOS s = start_play_tune env s"
| "gst_siddecfp_sink_event env SINK_EVENT_SEGMENT s = (True, s)"
| "gst_siddecfp_sink_event env SINK_EVENT_OTHER s = (True, s)"

subsection \<open>The production task\<close>

text \<open>
  One run of \<open>play_loop\<close>. \<open>play\<close> is the emulator for this call: given the number of
  samples requested it returns the number it produced. \<open>push_ret\<close> is what the push of
  the buffer returns. The result is the buffer handed to the push and the element after
  the iteration. A stamp is written only when its conversion succeeds; \<open>time\<close> starts
  at 0.
\<close>

definition stamp_or :: "guint64 \<Rightarrow> gint64 option \<Rightarrow> guint64" where
  "stamp_or d v = (case v of Some x \<Rightarrow> x | None \<Rightarrow> d)"

definition play_loop ::
  "(guint \<Rightarrow> guint) \<Rightarrow> GstFlowReturn \<Rightarrow> GstSidDecFp \<Rightarrow> GstBuffer \<times> GstSidDecFp" where
  "play_loop play push_ret siddecfp =
     (let out0 = gst_buffer_new_and_alloc (blocksize siddecfp);
          play_bytes = play (blocksize siddecfp div 2) * 2;
          cfg = config siddecfp;
          old_bytes = total_bytes siddecfp;
          out1 = out0\<lparr>buf_offset := stamp_or (buf_offset out0)
                   (gst_siddecfp_src_convert cfg GST_FORMAT_BYTES old_bytes GST_FORMAT_DEFAULT)\<rparr>;
          time = stamp_or 0
                   (gst_siddecfp_src_convert cfg GST_FORMAT_BYTES old_bytes GST_FORMAT_TIME);
          out2 = out1\<lparr>buf_timestamp := stamp_or (buf_timestamp out1)
                   (gst_siddecfp_src_convert cfg GST_FORMAT_BYTES old_bytes GST_FORMAT_TIME)\<rparr>;
          new_bytes = old_bytes + ucast play_bytes;
          out3 = out2\<lparr>buf_offset_end := stamp_or (buf_offset_end out2)
                   (gst_siddecfp_src_convert cfg GST_FORMAT_BYTES new_bytes GST_FORMAT_DEFAULT)\<rparr>;
          out = out3\<lparr>buf_duration :=
                   (case gst_siddecfp_src_convert cfg GST_FORMAT_BYTES new_bytes GST_FORMAT_TIME of
                      Some value \<Rightarrow> value - time
                    | None \<Rightarrow> buf_duration out3)\<rparr>;
          s1 = siddecfp\<lparr>total_bytes := new_bytes,
                 actions := actions siddecfp @
                   [PlayerPlay (blocksize siddecfp div 2), PushBuffer out]\<rparr>
      in if push_ret \<noteq> GST_FLOW_OK then
           (out,
            s1\<lparr>actions := actions s1 @
                  (if push_ret = GST_FLOW_EOS then [PushEvent EventEos]
                   else if flow_value push_ret < flow_value GST_FLOW_EOS
                           \<or> push_ret = GST_FLOW_NOT_LINKED
                   then [PostError (FlowError push_ret), PushEvent EventEos]
                   else []) @ [PauseTask],
               task_running := False\<rparr>)
         else (out, s1))"

text \<open>
  The task of the source pad calls \<open>play_loop\<close> again and again while it is running; each
  element of the schedule gives the emulator and the push result of one call.
\<close>

fun run_task :: "((guint \<Rightarrow> guint) \<times> GstFlowReturn) list \<Rightarrow> GstSidDecFp \<Rightarrow> GstSidDecFp" where
  "run_task [] s = s"
| "run_task (c # cs) s =
     (if task_running s then run_task cs (snd (play_loop (fst c) (snd c) s)) else s)"

text \<open>The buffers pushed so far, read off the log.\<close>

fun buffer_of :: "Action \<Rightarrow> GstBuffer list" where
  "buffer_of (PushBuffer b) = [b]"
| "buffer_of _ = []"

definition pushed_buffers :: "GstSidDecFp \<Rightarrow> GstBuffer list" where
  "pushed_buffers s = concat (map buffer_of (actions s))"


subsection \<open>Concrete elements and inputs\<close>

text \<open>An element that holds a kernal ROM, and a property value that carries a byte array.\<close>

definition rom_state :: GstSidDecFp where
  "rom_state = gst_siddecfp_init\<lparr>kernal := Some (replicate 8192 0)\<rparr>"

definition boxed_value :: "guint8 list option \<Rightarrow> GValue" where
  "boxed_value a =
     \<lparr>g_enum = 0, g_int = 0, g_boolean = False, g_double = 0, g_uint = 0, g_boxed = a\<rparr>"

text \<open>
  An element whose task runs, an emulator that produces one sample less than requested, and
  a schedule of two iterations, the second of which is refused downstream with end of stream.
\<close>

definition playing_state :: GstSidDecFp where
  "playing_state = gst_siddecfp_init\<lparr>task_running := True\<rparr>"

definition short_emulator :: "guint \<Rightarrow> guint" where
  "short_emulator n = (if n = 0 then 0 else n - 1)"

definition two_iterations :: "((guint \<Rightarrow> guint) \<times> GstFlowReturn) list" where
  "two_iterations = [(short_emulator, GST_FLOW_OK), (short_emulator, GST_FLOW_EOS)]"

subsection \<open>Predicates of the statements\<close>

text \<open>
  A downstream side is acceptable when its capability set can be obtained and its first
  candidate names the 16-bit signed format of the source pad.
\<close>

definition acceptable :: "Downstream \<Rightarrow> bool" where
  "acceptable env =
     (case allowed_caps env of
        Some (c # _) \<Rightarrow> st_format c = Some GST_AUDIO_FORMAT_S16
      | _ \<Rightarrow> False)"

text \<open>The builder is usable when it reports a good status after each of its three steps.\<close>

definition builder_ok :: "BuilderStatus \<Rightarrow> bool" where
  "builder_ok b = (status_new b \<and> status_create b \<and> status_filter b)"

text \<open>
  The first of the four build steps (song select, load, negotiate, build backend) that
  fails in a session, with its number and the error it is reported with; \<open>None\<close> when
  all four succeed.
\<close>

definition failed_step :: "Session \<Rightarrow> (nat \<times> ErrorMessage) option" where
  "failed_step env =
     (if \<not> select_song_ok env then Some (1, CouldNotSelectSong)
      else if \<not> load_ok env then Some (2, CouldNotLoadTune)
      else if \<not> acceptable (downstream env) then Some (3, CouldNotNegotiateFormat)
      else if \<not> builder_ok (builder_status env) then Some (4, CouldNotCreateBuilder)
      else None)"

text \<open>The entries of the log that mark the start of a build step.\<close>

fun is_build_step :: "Action \<Rightarrow> bool" where
  "is_build_step (SelectSong _) = True"
| "is_build_step PlayerLoad = True"
| "is_build_step GetAllowedCaps = True"
| "is_build_step (CreateBuilder _) = True"
| "is_build_step _ = False"

text \<open>What a call added to the log.\<close>

definition new_actions :: "GstSidDecFp \<Rightarrow> GstSidDecFp \<Rightarrow> Action list" where
  "new_actions s s' = drop (length (actions s)) (actions s')"

text \<open>
  Two downstream sides, one that declares 16-bit stereo at 48000 Hz and one that offers an
  8-bit format only, and two sessions in which every other step succeeds.
\<close>

definition stereo_downstream :: Downstream where
  "stereo_downstream =
     \<lparr>allowed_caps = Some [\<lparr>st_format = Some GST_AUDIO_FORMAT_S16, st_rate = Some 48000,
                              st_channels = Some 2\<rparr>],
      sticky_stream_start = None, next_group_id = 7\<rparr>"

definition eight_bit_downstream :: Downstream where
  "eight_bit_downstream =
     \<lparr>allowed_caps = Some [\<lparr>st_format = Some GST_AUDIO_FORMAT_U8, st_rate = Some 48000,
                              st_channels = Some 2\<rparr>],
      sticky_stream_start = None, next_group_id = 7\<rparr>"

definition eight_bit_session :: Session where
  "eight_bit_session =
     \<lparr>select_song_ok = True, load_ok = True, downstream = eight_bit_downstream,
      builder_status = \<lparr>status_new = True, status_create = True, status_filter = True\<rparr>,
      start_task_ok = True, tune_has_info = True\<rparr>"

definition good_session :: Session where
  "good_session = eight_bit_session\<lparr>downstream := stereo_downstream\<rparr>"

text \<open>
  The invariant of ingest: the stored length is between 0 and the capacity, and it is the
  number of bytes written to the tune buffer.
\<close>

definition tune_len_ok :: "GstSidDecFp \<Rightarrow> bool" where
  "tune_len_ok s = (0 \<le> sint (tune_len s) \<and> sint (tune_len s) \<le> 32768)"

definition ingest_inv :: "GstSidDecFp \<Rightarrow> bool" where
  "ingest_inv s = (tune_len_ok s \<and> int (length (tune_buffer s)) = sint (tune_len s))"

text \<open>
  A configuration as negotiation leaves it under the source pad's template: one or two
  channels and a rate from 8000 to 48000.
\<close>

definition negotiated :: "SidConfig \<Rightarrow> bool" where
  "negotiated cfg =
     ((playback cfg = MONO \<or> playback cfg = STEREO) \<and>
      8000 \<le> frequency cfg \<and> frequency cfg \<le> 48000)"

text \<open>
  A mono configuration at 8000 Hz, an element that outputs blocks of one byte, an element
  whose position is two bytes below \<open>2 ^ 64\<close> with blocks of four bytes, and a stereo
  element at 48000 Hz whose position is four bytes below \<open>2 ^ 64\<close>.
\<close>

definition mono_8000 :: SidConfig where
  "mono_8000 = default_config\<lparr>frequency := 8000\<rparr>"

definition one_byte_blocks :: GstSidDecFp where
  "one_byte_blocks = playing_state\<lparr>blocksize := 1\<rparr>"

definition position_at_end :: GstSidDecFp where
  "position_at_end = playing_state\<lparr>total_bytes := - 2, blocksize := 4\<rparr>"

definition position_past_sign :: GstSidDecFp where
  "position_past_sign =
     playing_state\<lparr>total_bytes := - 4, blocksize := 4,
                    config := default_config\<lparr>frequency := 48000, playback := STEREO\<rparr>\<rparr>"

section \<open>Properties\<close>

subsection \<open>Same-domain conversion\<close>

text \<open>
  C9. For every domain (BYTES, SAMPLES, TIME, and the other formats too), converting a value
  from a domain to the same domain succeeds and returns the value unchanged, whatever the
  configured sample rate and channel count are, a zero sample width included.
\<close>

theorem convert_same_domain_identity:
  "gst_siddecfp_src_convert cfg D x D = Some x"
  by (simp add: gst_siddecfp_src_convert_def)

subsection \<open>Facts about one iteration of the task\<close>

lemma run_task_paused: "\<not> task_running s \<Longrightarrow> run_task sched s = s"
  by (cases sched) simp_all

lemma play_loop_blocksize: "blocksize (snd (play_loop play ret s)) = blocksize s"
  by (simp add: play_loop_def Let_def)

lemma play_loop_config: "config (snd (play_loop play ret s)) = config s"
  by (simp add: play_loop_def Let_def)

lemma play_loop_pushed:
  "pushed_buffers (snd (play_loop play ret s)) = pushed_buffers s @ [fst (play_loop play ret s)]"
  by (auto simp: play_loop_def Let_def pushed_buffers_def)

lemma play_loop_buf_size: "buf_size (fst (play_loop play ret s)) = blocksize s"
  by (simp add: play_loop_def Let_def gst_buffer_new_and_alloc_def)

lemma run_task_pushed_sizes:
  "\<exists>new. pushed_buffers (run_task sched s) = pushed_buffers s @ new \<and>
         (\<forall>b \<in> set new. buf_size b = blocksize s)"
proof (induction sched arbitrary: s)
  case Nil
  then show ?case by simp
next
  case (Cons c cs)
  show ?case
  proof (cases "task_running s")
    case False
    then show ?thesis by simp
  next
    case True
    let ?s1 = "snd (play_loop (fst c) (snd c) s)"
    obtain new where new: "pushed_buffers (run_task cs ?s1) = pushed_buffers ?s1 @ new"
      "\<forall>b \<in> set new. buf_size b = blocksize s"
      using Cons.IH [of ?s1] by (auto simp: play_loop_blocksize)
    have "pushed_buffers (run_task (c # cs) s) =
            pushed_buffers s @ (fst (play_loop (fst c) (snd c) s) # new)"
      using True new(1) by (simp add: play_loop_pushed)
    moreover have "\<forall>b \<in> set (fst (play_loop (fst c) (snd c) s) # new). buf_size b = blocksize s"
      using new(2) by (simp add: play_loop_buf_size)
    ultimately show ?thesis by blast
  qed
qed

subsection \<open>ROM assignment\<close>

text \<open>
  C1, as stated, fails: the claim says that an array of the wrong size leaves the stored ROM
  unchanged. An element that holds a kernal ROM of 8192 bytes and is given an array of one
  byte holds no kernal ROM afterwards.
\<close>

theorem rom_wrong_size_counterexample:
  "kernal rom_state = Some (replicate 8192 0) \<and> length [0 :: guint8] \<noteq> 8192 \<and>
   kernal (gst_siddecfp_set_property PROP_KERNAL (boxed_value (Some [0])) rom_state)
     \<noteq> kernal rom_state"
  by (simp add: rom_state_def boxed_value_def player_config_def copy_byte_array_def
      gst_siddecfp_init_def)

text \<open>
  C1, amended. For every element and every assignment to the kernal, basic or chargen
  property: an array of exactly the expected size (8192, 8192, 4096) replaces the stored
  ROM; any other assignment (an array of another size, or no array) stores nothing and
  clears the ROM, so the previous value is dropped and a ROM that was absent stays absent.
  The two other ROMs are unchanged.
\<close>

theorem rom_assignment_stores_or_clears:
  "rom_field r (gst_siddecfp_set_property (rom_prop r) v s) =
     (case g_boxed v of
        None \<Rightarrow> None
      | Some a \<Rightarrow> if length a = rom_size r then Some a else None)
   \<and> (r' \<noteq> r \<longrightarrow>
        rom_field r' (gst_siddecfp_set_property (rom_prop r) v s) = rom_field r' s)"
  by (cases r; cases r'; simp add: player_config_def copy_byte_array_def split: option.splits)

theorem rom_assignment_witness:
  "kernal (gst_siddecfp_set_property PROP_KERNAL (boxed_value (Some (replicate 8192 1)))
      rom_state) = Some (replicate 8192 1)
   \<and> kernal (gst_siddecfp_set_property PROP_KERNAL (boxed_value (Some [0])) rom_state) = None
   \<and> Basic \<noteq> Kernal
   \<and> basic (gst_siddecfp_set_property PROP_KERNAL (boxed_value (Some [0])) rom_state)
       = basic rom_state"
  using rom_assignment_stores_or_clears
      [of Kernal "boxed_value (Some (replicate 8192 1))" rom_state Basic]
    rom_assignment_stores_or_clears [of Kernal "boxed_value (Some [0])" rom_state Basic]
  by (simp add: boxed_value_def)

subsection \<open>A refused push\<close>

text \<open>
  C2, as stated, fails: the claim says that every failing result other than end of stream
  is reported as an error and followed by an end-of-stream event. When the push returns
  \<open>GST_FLOW_FLUSHING\<close> the element posts no error and pushes no end-of-stream event.
\<close>

theorem play_loop_flushing_counterexample:
  "GST_FLOW_FLUSHING \<noteq> GST_FLOW_OK \<and> GST_FLOW_FLUSHING \<noteq> GST_FLOW_EOS \<and>
   PostError (FlowError GST_FLOW_FLUSHING)
     \<notin> set (actions (snd (play_loop (\<lambda>n. n) GST_FLOW_FLUSHING gst_siddecfp_init))) \<and>
   PushEvent EventEos
     \<notin> set (actions (snd (play_loop (\<lambda>n. n) GST_FLOW_FLUSHING gst_siddecfp_init)))"
  by (simp add: play_loop_def Let_def gst_siddecfp_init_def)

text \<open>
  C2, amended. For every result of the push other than OK the task is paused and no further
  iteration runs. After the buffer: for end of stream an end-of-stream event is pushed and
  no error is posted; for flushing and for the custom success codes nothing is posted or
  pushed; for every other result (not-linked, not-negotiated, error, not-supported and the
  custom error codes) an error is posted and an end-of-stream event is pushed.
\<close>

theorem play_loop_push_rejected:
  "push_ret \<noteq> GST_FLOW_OK \<Longrightarrow>
   \<not> task_running (snd (play_loop play push_ret s)) \<and>
   run_task sched (snd (play_loop play push_ret s)) = snd (play_loop play push_ret s) \<and>
   actions (snd (play_loop play push_ret s)) =
     actions s @ [PlayerPlay (blocksize s div 2), PushBuffer (fst (play_loop play push_ret s))] @
       (if push_ret = GST_FLOW_EOS then [PushEvent EventEos]
        else if push_ret \<in> {GST_FLOW_FLUSHING, GST_FLOW_CUSTOM_SUCCESS,
                             GST_FLOW_CUSTOM_SUCCESS_1, GST_FLOW_CUSTOM_SUCCESS_2} then []
        else [PostError (FlowError push_ret), PushEvent EventEos]) @ [PauseTask]"
proof -
  assume r: "push_ret \<noteq> GST_FLOW_OK"
  have paused: "\<not> task_running (snd (play_loop play push_ret s))"
    using r by (simp add: play_loop_def Let_def)
  have log: "actions (snd (play_loop play push_ret s)) =
     actions s @ [PlayerPlay (blocksize s div 2), PushBuffer (fst (play_loop play push_ret s))] @
       (if push_ret = GST_FLOW_EOS then [PushEvent EventEos]
        else if push_ret \<in> {GST_FLOW_FLUSHING, GST_FLOW_CUSTOM_SUCCESS,
                             GST_FLOW_CUSTOM_SUCCESS_1, GST_FLOW_CUSTOM_SUCCESS_2} then []
        else [PostError (FlowError push_ret), PushEvent EventEos]) @ [PauseTask]"
    using r by (cases push_ret) (simp_all add: play_loop_def Let_def)
  from paused log run_task_paused [OF paused] show ?thesis by simp
qed

theorem play_loop_push_rejected_witness:
  "GST_FLOW_NOT_LINKED \<noteq> GST_FLOW_OK \<and>
   \<not> task_running (snd (play_loop (\<lambda>n. n) GST_FLOW_NOT_LINKED gst_siddecfp_init)) \<and>
   drop 2 (actions (snd (play_loop (\<lambda>n. n) GST_FLOW_NOT_LINKED gst_siddecfp_init))) =
     [PostError (FlowError GST_FLOW_NOT_LINKED), PushEvent EventEos, PauseTask]"
  using play_loop_push_rejected [of GST_FLOW_NOT_LINKED "\<lambda>n. n" gst_siddecfp_init "[]"]
  by (simp add: gst_siddecfp_init_def)

subsection \<open>The size of a pushed buffer\<close>

text \<open>
  C10. The buffer an iteration pushes has the configured block size, whatever number of
  samples the emulator produced; it differs from a freshly allocated buffer of that size
  in its four stamps only, and its end offset is the conversion of the position advanced by
  the bytes the emulator produced. Every buffer the running task pushes has the block size.
\<close>

theorem pushed_buffer_has_blocksize:
  "buf_size (fst (play_loop play ret s)) = blocksize s \<and>
   (fst (play_loop play ret s))
      \<lparr>buf_offset := a, buf_timestamp := b, buf_offset_end := c, buf_duration := d\<rparr> =
   (gst_buffer_new_and_alloc (blocksize s))
      \<lparr>buf_offset := a, buf_timestamp := b, buf_offset_end := c, buf_duration := d\<rparr> \<and>
   buf_offset_end (fst (play_loop play ret s)) =
     stamp_or G_MAXUINT64
       (gst_siddecfp_src_convert (config s) GST_FORMAT_BYTES
          (total_bytes s + ucast (play (blocksize s div 2) * 2)) GST_FORMAT_DEFAULT) \<and>
   (\<forall>x \<in> set (drop (length (pushed_buffers s)) (pushed_buffers (run_task sched s))).
      buf_size x = blocksize s)"
proof -
  have 1: "buf_size (fst (play_loop play ret s)) = blocksize s"
    by (rule play_loop_buf_size)
  have 2: "(fst (play_loop play ret s))
      \<lparr>buf_offset := a, buf_timestamp := b, buf_offset_end := c, buf_duration := d\<rparr> =
   (gst_buffer_new_and_alloc (blocksize s))
      \<lparr>buf_offset := a, buf_timestamp := b, buf_offset_end := c, buf_duration := d\<rparr>"
    by (simp add: play_loop_def Let_def)
  have 3: "buf_offset_end (fst (play_loop play ret s)) =
     stamp_or G_MAXUINT64
       (gst_siddecfp_src_convert (config s) GST_FORMAT_BYTES
          (total_bytes s + ucast (play (blocksize s div 2) * 2)) GST_FORMAT_DEFAULT)"
    by (simp add: play_loop_def Let_def gst_buffer_new_and_alloc_def)
  have 4: "\<forall>x \<in> set (drop (length (pushed_buffers s)) (pushed_buffers (run_task sched s))).
      buf_size x = blocksize s"
    using run_task_pushed_sizes [of sched s] by auto
  from 1 2 3 4 show ?thesis by blast
qed

theorem pushed_buffer_has_blocksize_witness:
  "map buf_size (pushed_buffers (run_task two_iterations playing_state)) = [4096, 4096]"
proof -
  have e: "pushed_buffers playing_state = []" by code_simp
  have b: "blocksize playing_state = 4096" by code_simp
  have n: "length (pushed_buffers (run_task two_iterations playing_state)) = 2" by code_simp
  from n obtain x y where xy: "pushed_buffers (run_task two_iterations playing_state) = [x, y]"
    by (auto simp: length_Suc_conv numeral_2_eq_2)
  from pushed_buffer_has_blocksize
      [of short_emulator GST_FLOW_OK playing_state 0 0 0 0 two_iterations] e b xy
  have "buf_size x = 4096 \<and> buf_size y = 4096" by simp
  with xy show ?thesis by simp
qed

subsection \<open>Negotiation\<close>

lemma negotiate_None:
  "allowed_caps env = None \<Longrightarrow>
   siddecfp_negotiate env s = (False, s\<lparr>actions := actions s @ [GetAllowedCaps]\<rparr>)"
  by (simp add: siddecfp_negotiate_def)

lemma negotiate_Nil:
  "allowed_caps env = Some [] \<Longrightarrow>
   siddecfp_negotiate env s = (False, s\<lparr>actions := actions s @ [GetAllowedCaps]\<rparr>)"
  by (simp add: siddecfp_negotiate_def)

lemma negotiate_no_format:
  "allowed_caps env = Some (c # cs) \<Longrightarrow> st_format c = None \<Longrightarrow>
   siddecfp_negotiate env s = (False, s\<lparr>actions := actions s @ [GetAllowedCaps]\<rparr>)"
  by (simp add: siddecfp_negotiate_def)

lemma negotiate_other_format:
  "allowed_caps env = Some (c # cs) \<Longrightarrow> st_format c = Some f \<Longrightarrow> f \<noteq> GST_AUDIO_FORMAT_S16 \<Longrightarrow>
   siddecfp_negotiate env s = (False, s\<lparr>actions := actions s @ [GetAllowedCaps]\<rparr>)"
  by (simp add: siddecfp_negotiate_def)

lemma negotiate_S16:
  "allowed_caps env = Some (c # cs) \<Longrightarrow> st_format c = Some GST_AUDIO_FORMAT_S16 \<Longrightarrow>
   siddecfp_negotiate env s =
    (True,
     s\<lparr>config := (config s)
          \<lparr>frequency := (case st_rate c of Some r \<Rightarrow> r | None \<Rightarrow> 44100),
           playback := (if (case st_channels c of Some ch \<Rightarrow> ch | None \<Rightarrow> 1) = 1
                        then MONO else STEREO)\<rparr>,
        have_group_id := (case sticky_stream_start env of Some g \<Rightarrow> g \<noteq> 0 | None \<Rightarrow> True),
        group_id := (case sticky_stream_start env of
                       Some g \<Rightarrow> g
                     | None \<Rightarrow> if have_group_id s then group_id s else next_group_id env),
        actions := actions s @
          [GetAllowedCaps,
           PushEvent (EventStreamStart
             (if (case sticky_stream_start env of Some g \<Rightarrow> g \<noteq> 0 | None \<Rightarrow> True)
              then Some (case sticky_stream_start env of
                       Some g \<Rightarrow> g
                     | None \<Rightarrow> if have_group_id s then group_id s else next_group_id env)
              else None)),
           PushEvent (EventCaps GST_AUDIO_FORMAT_S16
             (case st_rate c of Some r \<Rightarrow> r | None \<Rightarrow> 44100)
             (if (case st_channels c of Some ch \<Rightarrow> ch | None \<Rightarrow> 1) = 1
                        then MONO else STEREO)),
           PlayerConfig]\<rparr>)"
  by (cases "sticky_stream_start env") (simp_all add: siddecfp_negotiate_def Let_def)

lemma negotiate_cases:
  obtains (failed) "\<not> acceptable env"
      "siddecfp_negotiate env s = (False, s\<lparr>actions := actions s @ [GetAllowedCaps]\<rparr>)"
  | (ok) c cs where "acceptable env" "allowed_caps env = Some (c # cs)"
      "st_format c = Some GST_AUDIO_FORMAT_S16"
proof (cases "allowed_caps env")
  case None
  then show ?thesis using failed negotiate_None by (simp add: acceptable_def)
next
  case (Some l)
  show ?thesis
  proof (cases l)
    case Nil
    then show ?thesis using Some failed negotiate_Nil by (simp add: acceptable_def)
  next
    case (Cons c cs)
    show ?thesis
    proof (cases "st_format c")
      case None
      then show ?thesis using Some Cons failed negotiate_no_format by (simp add: acceptable_def)
    next
      case (Some f)
      show ?thesis
      proof (cases "f = GST_AUDIO_FORMAT_S16")
        case True
        then show ?thesis using \<open>allowed_caps env = Some l\<close> Cons Some ok
          by (simp add: acceptable_def)
      next
        case False
        then show ?thesis
          using \<open>allowed_caps env = Some l\<close> Cons Some failed negotiate_other_format
          by (simp add: acceptable_def)
      qed
    qed
  qed
qed

lemma negotiate_ok_iff: "fst (siddecfp_negotiate env s) = acceptable env"
  by (cases rule: negotiate_cases [of env s]) (simp_all add: negotiate_S16)

lemma negotiate_failed:
  "\<not> acceptable env \<Longrightarrow>
     snd (siddecfp_negotiate env s) = s\<lparr>actions := actions s @ [GetAllowedCaps]\<rparr>"
  by (cases rule: negotiate_cases [of env s]) simp_all

text \<open>
  C7. Negotiation fails when the capability set of the downstream side cannot be obtained
  and when its first candidate does not name the 16-bit signed format; a failed negotiation
  changes nothing but the log and announces no format. On success the configured rate is
  the rate the candidate declares, 44100 when it declares none, and the configured channel
  count is 1 when the candidate declares none; a declared count of 1 or 2 is stored as it
  is.
\<close>

theorem negotiate_format:
  "fst (siddecfp_negotiate env s) = acceptable env \<and>
   (allowed_caps env = None \<longrightarrow> \<not> fst (siddecfp_negotiate env s)) \<and>
   (allowed_caps env = Some (c # cs) \<and> st_format c \<noteq> Some GST_AUDIO_FORMAT_S16 \<longrightarrow>
      \<not> fst (siddecfp_negotiate env s)) \<and>
   (\<not> fst (siddecfp_negotiate env s) \<longrightarrow>
      snd (siddecfp_negotiate env s) = s\<lparr>actions := actions s @ [GetAllowedCaps]\<rparr>) \<and>
   (fst (siddecfp_negotiate env s) \<and> allowed_caps env = Some (c # cs) \<longrightarrow>
      frequency (config (snd (siddecfp_negotiate env s))) =
        (case st_rate c of Some r \<Rightarrow> r | None \<Rightarrow> 44100) \<and>
      playback (config (snd (siddecfp_negotiate env s))) =
        (case st_channels c of Some ch \<Rightarrow> if ch = 1 then 1 else 2 | None \<Rightarrow> 1) \<and>
      (\<forall>ch. st_channels c = Some ch \<and> (ch = 1 \<or> ch = 2) \<longrightarrow>
         playback (config (snd (siddecfp_negotiate env s))) = ch))"
proof -
  have ok: "fst (siddecfp_negotiate env s) = acceptable env"
    by (rule negotiate_ok_iff)
  have none: "allowed_caps env = None \<longrightarrow> \<not> acceptable env"
    by (simp add: acceptable_def)
  have other: "allowed_caps env = Some (c # cs) \<and> st_format c \<noteq> Some GST_AUDIO_FORMAT_S16 \<longrightarrow>
      \<not> acceptable env"
    by (simp add: acceptable_def)
  have failed: "\<not> acceptable env \<longrightarrow>
      snd (siddecfp_negotiate env s) = s\<lparr>actions := actions s @ [GetAllowedCaps]\<rparr>"
    by (simp add: negotiate_failed)
  have stored: "acceptable env \<and> allowed_caps env = Some (c # cs) \<longrightarrow>
      frequency (config (snd (siddecfp_negotiate env s))) =
        (case st_rate c of Some r \<Rightarrow> r | None \<Rightarrow> 44100) \<and>
      playback (config (snd (siddecfp_negotiate env s))) =
        (case st_channels c of Some ch \<Rightarrow> if ch = 1 then 1 else 2 | None \<Rightarrow> 1) \<and>
      (\<forall>ch. st_channels c = Some ch \<and> (ch = 1 \<or> ch = 2) \<longrightarrow>
         playback (config (snd (siddecfp_negotiate env s))) = ch)"
  proof (intro impI, elim conjE)
    assume a: "acceptable env" and c: "allowed_caps env = Some (c # cs)"
    from a c have f: "st_format c = Some GST_AUDIO_FORMAT_S16"
      by (simp add: acceptable_def)
    show "frequency (config (snd (siddecfp_negotiate env s))) =
        (case st_rate c of Some r \<Rightarrow> r | None \<Rightarrow> 44100) \<and>
      playback (config (snd (siddecfp_negotiate env s))) =
        (case st_channels c of Some ch \<Rightarrow> if ch = 1 then 1 else 2 | None \<Rightarrow> 1) \<and>
      (\<forall>ch. st_channels c = Some ch \<and> (ch = 1 \<or> ch = 2) \<longrightarrow>
         playback (config (snd (siddecfp_negotiate env s))) = ch)"
      by (cases "st_channels c") (auto simp: negotiate_S16 [OF c f] MONO_def STEREO_def)
  qed
  from ok none other failed stored show ?thesis by simp
qed

theorem negotiate_format_witness:
  "fst (siddecfp_negotiate stereo_downstream gst_siddecfp_init) \<and>
   frequency (config (snd (siddecfp_negotiate stereo_downstream gst_siddecfp_init))) = 48000 \<and>
   playback (config (snd (siddecfp_negotiate stereo_downstream gst_siddecfp_init))) = 2 \<and>
   \<not> fst (siddecfp_negotiate eight_bit_downstream gst_siddecfp_init)"
  using negotiate_format [of stereo_downstream gst_siddecfp_init
      "\<lparr>st_format = Some GST_AUDIO_FORMAT_S16, st_rate = Some 48000, st_channels = Some 2\<rparr>" "[]"]
    negotiate_format [of eight_bit_downstream gst_siddecfp_init
      "\<lparr>st_format = Some GST_AUDIO_FORMAT_U8, st_rate = Some 48000, st_channels = Some 2\<rparr>" "[]"]
  by (simp add: stereo_downstream_def eight_bit_downstream_def acceptable_def)

subsection \<open>Starting a session at end of input\<close>

lemma create_builder_ok:
  "builder_ok b \<Longrightarrow>
   create_builder b s =
     (True, s\<lparr>actions := actions s @ [CreateBuilder (emulation s)] @ set_roms s @ [PlayerConfig]\<rparr>)"
  by (simp add: create_builder_def builder_ok_def Let_def set_roms_def)

lemma create_builder_failed:
  "\<not> builder_ok b \<Longrightarrow>
   create_builder b s = (False, s\<lparr>actions := actions s @ [CreateBuilder (emulation s)]\<rparr>)"
  by (auto simp: create_builder_def builder_ok_def Let_def)

lemma set_roms_plain:
  "filter is_build_step (set_roms s) = [] \<and> PushEvent EventSegment \<notin> set (set_roms s) \<and>
   StartTask \<notin> set (set_roms s) \<and> PostError e \<notin> set (set_roms s) \<and>
   concat (map buffer_of (set_roms s)) = []"
  by (simp add: set_roms_def)

lemma start_select_failed:
  "\<not> select_song_ok env \<Longrightarrow>
   start_play_tune env s =
     (False, s\<lparr>actions := actions s @
        [TuneRead (tune_len s), SelectSong (tune_number s), PostError CouldNotSelectSong]\<rparr>)"
  by (simp add: start_play_tune_def post_error_def)

lemma start_load_failed:
  "select_song_ok env \<Longrightarrow> \<not> load_ok env \<Longrightarrow>
   start_play_tune env s =
     (False, s\<lparr>actions := actions s @
        [TuneRead (tune_len s), SelectSong (tune_number s), PlayerLoad,
         PostError CouldNotLoadTune]\<rparr>)"
  by (simp add: start_play_tune_def post_error_def)

lemma start_negotiate_failed:
  "select_song_ok env \<Longrightarrow> load_ok env \<Longrightarrow> \<not> acceptable (downstream env) \<Longrightarrow>
   start_play_tune env s =
     (False, s\<lparr>actions := actions s @
        [TuneRead (tune_len s), SelectSong (tune_number s), PlayerLoad, GetAllowedCaps,
         PostError CouldNotNegotiateFormat]\<rparr>)"
  by (simp add: start_play_tune_def post_error_def Let_def negotiate_ok_iff negotiate_failed)

lemma negotiate_frame:
  "total_bytes (snd (siddecfp_negotiate env s)) = total_bytes s \<and>
   task_running (snd (siddecfp_negotiate env s)) = task_running s \<and>
   emulation (snd (siddecfp_negotiate env s)) = emulation s"
  by (cases rule: negotiate_cases [of env s]) (simp_all add: negotiate_S16)

lemma negotiate_actions:
  "\<exists>ev. actions (snd (siddecfp_negotiate env s)) = actions s @ GetAllowedCaps # ev \<and>
        filter is_build_step ev = [] \<and> PushEvent EventSegment \<notin> set ev \<and>
        StartTask \<notin> set ev \<and> (\<forall>e. PostError e \<notin> set ev) \<and>
        concat (map buffer_of ev) = []"
  by (cases rule: negotiate_cases [of env s]) (simp_all add: negotiate_S16)

lemma start_builder_failed:
  fixes env :: Session and s :: GstSidDecFp
  assumes "select_song_ok env" "load_ok env" "acceptable (downstream env)"
    "\<not> builder_ok (builder_status env)"
  defines "n \<equiv> snd (siddecfp_negotiate (downstream env)
                (s\<lparr>actions := actions s @
                   [TuneRead (tune_len s), SelectSong (tune_number s), PlayerLoad]\<rparr>))"
  shows "fst (start_play_tune env s) = False"
    and "actions (snd (start_play_tune env s)) =
           actions n @ [CreateBuilder (emulation n), PostError CouldNotCreateBuilder]"
    and "total_bytes (snd (start_play_tune env s)) = total_bytes n"
    and "task_running (snd (start_play_tune env s)) = task_running n"
  using assms(1-4) unfolding n_def
  by (simp_all add: start_play_tune_def Let_def negotiate_ok_iff create_builder_failed
      post_error_def)

lemma start_succeeded:
  fixes env :: Session and s :: GstSidDecFp
  assumes "select_song_ok env" "load_ok env" "acceptable (downstream env)"
    "builder_ok (builder_status env)"
  defines "n \<equiv> snd (siddecfp_negotiate (downstream env)
                (s\<lparr>actions := actions s @
                   [TuneRead (tune_len s), SelectSong (tune_number s), PlayerLoad]\<rparr>))"
  shows "fst (start_play_tune env s) = start_task_ok env"
    and "actions (snd (start_play_tune env s)) =
           actions n @ [CreateBuilder (emulation n)] @ set_roms n @
             [PlayerConfig, PushEvent EventSegment, StartTask] @
             (if tune_has_info env then [PushEvent EventTag] else [])"
    and "total_bytes (snd (start_play_tune env s)) = 0"
    and "task_running (snd (start_play_tune env s)) = (start_task_ok env \<or> task_running n)"
  using assms(1-4) unfolding n_def
  by (simp_all add: start_play_tune_def Let_def negotiate_ok_iff create_builder_ok
      update_tags_def)


lemma start_play_tune_failed:
  assumes f: "failed_step env = Some (k, e)"
  shows "\<not> fst (start_play_tune env s)"
    and "last (actions (snd (start_play_tune env s))) = PostError e"
    and "total_bytes (snd (start_play_tune env s)) = total_bytes s"
    and "task_running (snd (start_play_tune env s)) = task_running s"
    and "filter is_build_step (new_actions s (snd (start_play_tune env s))) =
           take k [SelectSong (tune_number s), PlayerLoad, GetAllowedCaps,
                   CreateBuilder (emulation s)]"
    and "PushEvent EventSegment \<notin> set (new_actions s (snd (start_play_tune env s)))"
    and "StartTask \<notin> set (new_actions s (snd (start_play_tune env s)))"
proof -
  let ?s2 = "s\<lparr>actions := actions s @
                   [TuneRead (tune_len s), SelectSong (tune_number s), PlayerLoad]\<rparr>"
  let ?n = "snd (siddecfp_negotiate (downstream env) ?s2)"
  let ?r = "start_play_tune env s"
  have all: "\<not> fst ?r \<and> last (actions (snd ?r)) = PostError e \<and>
     total_bytes (snd ?r) = total_bytes s \<and> task_running (snd ?r) = task_running s \<and>
     filter is_build_step (new_actions s (snd ?r)) =
           take k [SelectSong (tune_number s), PlayerLoad, GetAllowedCaps,
                   CreateBuilder (emulation s)] \<and>
     PushEvent EventSegment \<notin> set (new_actions s (snd ?r)) \<and>
     StartTask \<notin> set (new_actions s (snd ?r))"
  proof (cases "select_song_ok env")
    case False
    with f have "k = 1" "e = CouldNotSelectSong" by (simp_all add: failed_step_def)
    then show ?thesis by (simp add: start_select_failed [OF False] new_actions_def)
  next
    case sel: True
    show ?thesis
    proof (cases "load_ok env")
      case False
      with f sel have "k = 2" "e = CouldNotLoadTune" by (simp_all add: failed_step_def)
      then show ?thesis by (simp add: start_load_failed [OF sel False] new_actions_def)
    next
      case load: True
      show ?thesis
      proof (cases "acceptable (downstream env)")
        case False
        with f sel load have "k = 3" "e = CouldNotNegotiateFormat"
          by (simp_all add: failed_step_def)
        then show ?thesis
          by (simp add: start_negotiate_failed [OF sel load False] new_actions_def)
      next
        case acc: True
        with f sel load have nb: "\<not> builder_ok (builder_status env)"
          and ke: "k = 4" "e = CouldNotCreateBuilder"
          by (simp_all add: failed_step_def split: if_splits)
        obtain ev where ev: "actions ?n = actions ?s2 @ GetAllowedCaps # ev"
          "filter is_build_step ev = []" "PushEvent EventSegment \<notin> set ev"
          "StartTask \<notin> set ev"
          using negotiate_actions [of "downstream env" ?s2] by blast
        have fr: "total_bytes ?n = total_bytes s" "task_running ?n = task_running s"
          "emulation ?n = emulation s"
          using negotiate_frame [of "downstream env" ?s2] by simp_all
        show ?thesis
          using start_builder_failed [OF sel load acc nb, of s] ev fr ke
          by (simp add: new_actions_def)
      qed
    qed
  qed
  from all show "\<not> fst (start_play_tune env s)"
    and "last (actions (snd (start_play_tune env s))) = PostError e"
    and "total_bytes (snd (start_play_tune env s)) = total_bytes s"
    and "task_running (snd (start_play_tune env s)) = task_running s"
    and "filter is_build_step (new_actions s (snd (start_play_tune env s))) =
           take k [SelectSong (tune_number s), PlayerLoad, GetAllowedCaps,
                   CreateBuilder (emulation s)]"
    and "PushEvent EventSegment \<notin> set (new_actions s (snd (start_play_tune env s)))"
    and "StartTask \<notin> set (new_actions s (snd (start_play_tune env s)))"
    by simp_all
qed

lemma start_play_tune_built:
  assumes f: "failed_step env = None"
  shows "fst (start_play_tune env s) = start_task_ok env"
    and "total_bytes (snd (start_play_tune env s)) = 0"
    and "task_running (snd (start_play_tune env s)) = (start_task_ok env \<or> task_running s)"
    and "filter is_build_step (new_actions s (snd (start_play_tune env s))) =
           [SelectSong (tune_number s), PlayerLoad, GetAllowedCaps, CreateBuilder (emulation s)]"
    and "PushEvent EventSegment \<in> set (new_actions s (snd (start_play_tune env s)))"
    and "StartTask \<in> set (new_actions s (snd (start_play_tune env s)))"
    and "PostError e \<notin> set (new_actions s (snd (start_play_tune env s)))"
proof -
  let ?s2 = "s\<lparr>actions := actions s @
                   [TuneRead (tune_len s), SelectSong (tune_number s), PlayerLoad]\<rparr>"
  let ?n = "snd (siddecfp_negotiate (downstream env) ?s2)"
  from f have sel: "select_song_ok env" and load: "load_ok env"
    and acc: "acceptable (downstream env)" and b: "builder_ok (builder_status env)"
    by (simp_all add: failed_step_def split: if_splits)
  obtain ev where ev: "actions ?n = actions ?s2 @ GetAllowedCaps # ev"
    "filter is_build_step ev = []" "PostError e \<notin> set ev"
    using negotiate_actions [of "downstream env" ?s2] by blast
  have fr: "total_bytes ?n = total_bytes s" "task_running ?n = task_running s"
    "emulation ?n = emulation s"
    using negotiate_frame [of "downstream env" ?s2] by simp_all
  note ok = start_succeeded [OF sel load acc b, of s]
  show "fst (start_play_tune env s) = start_task_ok env" by (rule ok(1))
  show "total_bytes (snd (start_play_tune env s)) = 0" by (rule ok(3))
  show "task_running (snd (start_play_tune env s)) = (start_task_ok env \<or> task_running s)"
    using ok(4) fr by simp
  show "filter is_build_step (new_actions s (snd (start_play_tune env s))) =
           [SelectSong (tune_number s), PlayerLoad, GetAllowedCaps, CreateBuilder (emulation s)]"
    using ok(2) ev fr set_roms_plain [of ?n] by (simp add: new_actions_def)
  show "PushEvent EventSegment \<in> set (new_actions s (snd (start_play_tune env s)))"
    using ok(2) ev by (simp add: new_actions_def)
  show "StartTask \<in> set (new_actions s (snd (start_play_tune env s)))"
    using ok(2) ev by (simp add: new_actions_def)
  show "PostError e \<notin> set (new_actions s (snd (start_play_tune env s)))"
    using ok(2) ev set_roms_plain [of ?n e] by (simp add: new_actions_def)
qed

lemma start_play_tune_pushes_no_buffer:
  "pushed_buffers (snd (start_play_tune env s)) = pushed_buffers s"
proof -
  let ?s2 = "s\<lparr>actions := actions s @
                   [TuneRead (tune_len s), SelectSong (tune_number s), PlayerLoad]\<rparr>"
  let ?n = "snd (siddecfp_negotiate (downstream env) ?s2)"
  obtain ev where ev: "actions ?n = actions ?s2 @ GetAllowedCaps # ev"
    "concat (map buffer_of ev) = []"
    using negotiate_actions [of "downstream env" ?s2] by blast
  consider (sel) "\<not> select_song_ok env"
    | (load) "select_song_ok env" "\<not> load_ok env"
    | (neg) "select_song_ok env" "load_ok env" "\<not> acceptable (downstream env)"
    | (build) "select_song_ok env" "load_ok env" "acceptable (downstream env)"
        "\<not> builder_ok (builder_status env)"
    | (ok) "select_song_ok env" "load_ok env" "acceptable (downstream env)"
        "builder_ok (builder_status env)"
    by blast
  then show ?thesis
  proof cases
    case sel
    then show ?thesis by (simp add: start_select_failed pushed_buffers_def)
  next
    case load
    then show ?thesis by (simp add: start_load_failed pushed_buffers_def)
  next
    case neg
    then show ?thesis by (simp add: start_negotiate_failed pushed_buffers_def)
  next
    case build
    then show ?thesis
      using start_builder_failed(2) [of env s] ev by (simp add: pushed_buffers_def)
  next
    case ok
    then show ?thesis
      using start_succeeded(2) [of env s] ev set_roms_plain [of ?n]
      by (simp add: pushed_buffers_def)
  qed
qed

text \<open>
  C8. End of input on the sink pad runs \<open>start_play_tune\<close>. The build steps start in the
  order song select, load, negotiate, build backend, and the first step that fails is the
  last one started: the call returns false with that step's error as the last entry of the
  log, the position and the task are left as they were, no segment is announced, no task
  is started, and if no task was running no buffer is pushed afterwards. When all four
  steps succeed the position is 0, a segment is announced, the task is started and no
  error is reported.
\<close>

theorem start_play_tune_gates:
  "gst_siddecfp_sink_event env SINK_EVENT_EOS s = start_play_tune env s \<and>
   (\<forall>k e. failed_step env = Some (k, e) \<longrightarrow>
      \<not> fst (start_play_tune env s) \<and>
      filter is_build_step (new_actions s (snd (start_play_tune env s))) =
        take k [SelectSong (tune_number s), PlayerLoad, GetAllowedCaps,
                CreateBuilder (emulation s)] \<and>
      last (actions (snd (start_play_tune env s))) = PostError e \<and>
      total_bytes (snd (start_play_tune env s)) = total_bytes s \<and>
      task_running (snd (start_play_tune env s)) = task_running s \<and>
      PushEvent EventSegment \<notin> set (new_actions s (snd (start_play_tune env s))) \<and>
      StartTask \<notin> set (new_actions s (snd (start_play_tune env s))) \<and>
      (\<not> task_running s \<longrightarrow>
         pushed_buffers (run_task sched (snd (start_play_tune env s))) = pushed_buffers s)) \<and>
   (failed_step env = None \<longrightarrow>
      fst (start_play_tune env s) = start_task_ok env \<and>
      filter is_build_step (new_actions s (snd (start_play_tune env s))) =
        [SelectSong (tune_number s), PlayerLoad, GetAllowedCaps, CreateBuilder (emulation s)] \<and>
      total_bytes (snd (start_play_tune env s)) = 0 \<and>
      task_running (snd (start_play_tune env s)) = (start_task_ok env \<or> task_running s) \<and>
      PushEvent EventSegment \<in> set (new_actions s (snd (start_play_tune env s))) \<and>
      StartTask \<in> set (new_actions s (snd (start_play_tune env s))) \<and>
      (\<forall>e. PostError e \<notin> set (new_actions s (snd (start_play_tune env s)))))"
proof (intro conjI allI impI)
  fix k e
  assume f: "failed_step env = Some (k, e)"
  note fl = start_play_tune_failed [OF f, of s]
  show "\<not> fst (start_play_tune env s)" by (rule fl(1))
  show "filter is_build_step (new_actions s (snd (start_play_tune env s))) =
        take k [SelectSong (tune_number s), PlayerLoad, GetAllowedCaps,
                CreateBuilder (emulation s)]" by (rule fl(5))
  show "last (actions (snd (start_play_tune env s))) = PostError e" by (rule fl(2))
  show "total_bytes (snd (start_play_tune env s)) = total_bytes s" by (rule fl(3))
  show "task_running (snd (start_play_tune env s)) = task_running s" by (rule fl(4))
  show "PushEvent EventSegment \<notin> set (new_actions s (snd (start_play_tune env s)))"
    by (rule fl(6))
  show "StartTask \<notin> set (new_actions s (snd (start_play_tune env s)))" by (rule fl(7))
  assume "\<not> task_running s"
  with fl(4) have "\<not> task_running (snd (start_play_tune env s))" by simp
  then show "pushed_buffers (run_task sched (snd (start_play_tune env s))) = pushed_buffers s"
    by (simp add: run_task_paused start_play_tune_pushes_no_buffer)
next
  assume f: "failed_step env = None"
  note ok = start_play_tune_built [OF f, where s = s]
  show "fst (start_play_tune env s) = start_task_ok env" by (rule ok(1))
  show "filter is_build_step (new_actions s (snd (start_play_tune env s))) =
        [SelectSong (tune_number s), PlayerLoad, GetAllowedCaps, CreateBuilder (emulation s)]"
    by (rule ok(4))
  show "total_bytes (snd (start_play_tune env s)) = 0" by (rule ok(2))
  show "task_running (snd (start_play_tune env s)) = (start_task_ok env \<or> task_running s)"
    by (rule ok(3))
  show "PushEvent EventSegment \<in> set (new_actions s (snd (start_play_tune env s)))"
    by (rule ok(5))
  show "StartTask \<in> set (new_actions s (snd (start_play_tune env s)))" by (rule ok(6))
  show "\<And>e. PostError e \<notin> set (new_actions s (snd (start_play_tune env s)))" by (rule ok(7))
qed simp

theorem start_play_tune_gates_witness:
  "failed_step eight_bit_session = Some (3, CouldNotNegotiateFormat) \<and>
   \<not> fst (start_play_tune eight_bit_session gst_siddecfp_init) \<and>
   last (actions (snd (start_play_tune eight_bit_session gst_siddecfp_init)))
     = PostError CouldNotNegotiateFormat \<and>
   pushed_buffers (run_task two_iterations (snd (start_play_tune eight_bit_session gst_siddecfp_init)))
     = [] \<and>
   failed_step good_session = None \<and>
   fst (start_play_tune good_session gst_siddecfp_init) \<and>
   task_running (snd (start_play_tune good_session gst_siddecfp_init)) \<and>
   total_bytes (snd (start_play_tune good_session gst_siddecfp_init)) = 0"
proof -
  have f: "failed_step eight_bit_session = Some (3, CouldNotNegotiateFormat)" by code_simp
  have g: "failed_step good_session = None" by code_simp
  have i: "\<not> task_running gst_siddecfp_init" "pushed_buffers gst_siddecfp_init = []"
    "start_task_ok good_session"
    by code_simp+
  from start_play_tune_gates [of eight_bit_session gst_siddecfp_init two_iterations]
    start_play_tune_gates [of good_session gst_siddecfp_init two_iterations] f g i
  show ?thesis by simp
qed

subsection \<open>Ingest and the capacity of the tune buffer\<close>

lemma scast_nonneg_uint:
  fixes w :: "32 word"
  assumes "0 \<le> sint w"
  shows "uint (scast w :: 64 word) = sint w"
proof -
  have "sint w < 2 ^ 31" using sint_lt [of w] by simp
  then have lt: "sint w < 2 ^ 64" by (rule less_trans) simp
  have "uint (scast w :: 64 word) = sint w mod 2 ^ 64"
    by (simp only: scast_eq uint_word_of_int) simp
  with assms lt show ?thesis by simp
qed

lemma uint_size64:
  assumes "n < 2 ^ 63"
  shows "uint (word_of_nat n :: 64 word) = int n"
proof -
  have "unat (word_of_nat n :: 64 word) = n mod 2 ^ 64"
    by (simp add: unat_of_nat)
  moreover have "n < 2 ^ 64" using assms by (rule less_trans) simp
  ultimately have "unat (word_of_nat n :: 64 word) = n" by simp
  then show ?thesis by (metis uint_nat) 
qed

lemma chain_sum:
  fixes tl :: "32 word"
  assumes "0 \<le> sint tl" "sint tl \<le> 32768" "n < 2 ^ 63"
  shows "uint ((scast tl :: 64 word) + word_of_nat n) = sint tl + int n"
proof -
  have "uint ((scast tl :: 64 word) + word_of_nat n) = (sint tl + int n) mod 2 ^ 64"
    by (simp add: uint_word_ariths scast_nonneg_uint [OF assms(1)] uint_size64 [OF assms(3)])
  moreover have "sint tl + int n < 2 ^ 64" using assms by simp
  ultimately show ?thesis using assms(1) by simp
qed

lemma max_size: "uint (scast MAX_SID_TUNE_BUF_SIZE :: 64 word) = 32768"
  by (simp add: MAX_SID_TUNE_BUF_SIZE_def DEFAULT_BLOCKSIZE_def)

lemma chain_overflow_test:
  fixes tl :: "32 word"
  assumes "0 \<le> sint tl" "sint tl \<le> 32768" "n < 2 ^ 63"
  shows "((scast tl :: 64 word) + word_of_nat n > scast MAX_SID_TUNE_BUF_SIZE)
           \<longleftrightarrow> sint tl + int n > 32768"
  by (simp add: word_less_def chain_sum [OF assms] max_size)

lemma chain_new_len:
  fixes tl :: "32 word"
  assumes "0 \<le> sint tl" "sint tl + int n \<le> 32768"
  shows "sint (ucast ((scast tl :: 64 word) + word_of_nat n) :: 32 word) = sint tl + int n"
proof -
  have n: "n < 2 ^ 63" using assms by simp
  have t: "sint tl \<le> 32768" using assms by simp
  have u: "uint ((scast tl :: 64 word) + word_of_nat n) = sint tl + int n"
    by (rule chain_sum [OF assms(1) t n])
  have "(ucast ((scast tl :: 64 word) + word_of_nat n) :: 32 word) = word_of_int (sint tl + int n)"
    by (simp only: ucast_eq u)
  moreover have "sint (word_of_int (sint tl + int n) :: 32 word) = sint tl + int n"
  proof -
    have "- (2 ^ 31) \<le> sint tl + int n" "sint tl + int n < 2 ^ 31"
      using assms by simp_all
    then have "signed_take_bit 31 (sint tl + int n) = sint tl + int n"
      by (rule signed_take_bit_int_eq_self)
    then show ?thesis by (simp only: sint_sbintrunc') simp
  qed
  ultimately show ?thesis by simp
qed

lemma chain_refuses:
  assumes "tune_len_ok s" "length b < 2 ^ 63" "sint (tune_len s) + int (length b) > 32768"
  shows "gst_siddecfp_chain b s =
           (GST_FLOW_ERROR, s\<lparr>actions := actions s @ [PostError InputDataTooBig]\<rparr>)"
proof -
  from assms(1) have t: "0 \<le> sint (tune_len s)" "sint (tune_len s) \<le> 32768"
    by (simp_all add: tune_len_ok_def)
  show ?thesis
    using assms(3) by (simp add: gst_siddecfp_chain_def Let_def chain_overflow_test [OF t assms(2)])
qed

lemma chain_accepts:
  assumes "tune_len_ok s" "sint (tune_len s) + int (length b) \<le> 32768"
  shows "fst (gst_siddecfp_chain b s) = GST_FLOW_OK"
    and "sint (tune_len (snd (gst_siddecfp_chain b s))) = sint (tune_len s) + int (length b)"
    and "tune_buffer (snd (gst_siddecfp_chain b s)) =
           take (nat (sint (tune_len s))) (tune_buffer s) @ b"
    and "actions (snd (gst_siddecfp_chain b s)) = actions s"
    and "tune_len_ok (snd (gst_siddecfp_chain b s))"
proof -
  from assms(1) have t: "0 \<le> sint (tune_len s)" "sint (tune_len s) \<le> 32768"
    by (simp_all add: tune_len_ok_def)
  have n: "length b < 2 ^ 63" using assms(2) t by simp
  have no: "\<not> ((scast (tune_len s) :: 64 word) + word_of_nat (length b)
               > scast MAX_SID_TUNE_BUF_SIZE)"
    using assms(2) by (simp add: chain_overflow_test [OF t n])
  show "fst (gst_siddecfp_chain b s) = GST_FLOW_OK"
    using no by (simp add: gst_siddecfp_chain_def Let_def)
  show l: "sint (tune_len (snd (gst_siddecfp_chain b s))) = sint (tune_len s) + int (length b)"
    using no by (simp add: gst_siddecfp_chain_def Let_def chain_new_len [OF t(1) assms(2)])
  show "tune_buffer (snd (gst_siddecfp_chain b s)) =
           take (nat (sint (tune_len s))) (tune_buffer s) @ b"
    using no by (simp add: gst_siddecfp_chain_def Let_def)
  show "actions (snd (gst_siddecfp_chain b s)) = actions s"
    using no by (simp add: gst_siddecfp_chain_def Let_def)
  show "tune_len_ok (snd (gst_siddecfp_chain b s))"
    using l t assms(2) by (simp add: tune_len_ok_def)
qed

lemma chain_all_fits:
  assumes "ingest_inv s" "sint (tune_len s) + int (total_size bs) \<le> 32768"
  shows "fst (chain_all bs s) = GST_FLOW_OK \<and>
         sint (tune_len (snd (chain_all bs s))) = sint (tune_len s) + int (total_size bs) \<and>
         tune_buffer (snd (chain_all bs s)) = tune_buffer s @ concat bs \<and>
         actions (snd (chain_all bs s)) = actions s \<and>
         ingest_inv (snd (chain_all bs s))"
  using assms
proof (induction bs arbitrary: s)
  case Nil
  then show ?case by (simp add: total_size_def)
next
  case (Cons b bs)
  let ?s1 = "snd (gst_siddecfp_chain b s)"
  from Cons.prems have ok: "tune_len_ok s" and len: "int (length (tune_buffer s)) = sint (tune_len s)"
    by (simp_all add: ingest_inv_def)
  from Cons.prems(2) have fit: "sint (tune_len s) + int (length b) \<le> 32768"
    by (simp add: total_size_def)
  note a = chain_accepts [OF ok fit]
  have buf: "tune_buffer ?s1 = tune_buffer s @ b"
    using a(3) len by simp
  have inv1: "ingest_inv ?s1"
    using a(2,5) buf len by (simp add: ingest_inv_def)
  have fit1: "sint (tune_len ?s1) + int (total_size bs) \<le> 32768"
    using a(2) Cons.prems(2) by (simp add: total_size_def)
  from Cons.IH [OF inv1 fit1] a(1,2,4) buf show ?case
    by (simp add: total_size_def Let_def)
qed

lemma chain_all_crosses:
  assumes "ingest_inv s" "sint (tune_len s) + int (total_size pre) \<le> 32768"
    "sint (tune_len s) + int (total_size pre) + int (length c) > 32768" "length c < 2 ^ 63"
  shows "fst (chain_all (pre @ c # post) s) = GST_FLOW_ERROR \<and>
         sint (tune_len (snd (chain_all (pre @ c # post) s)))
           = sint (tune_len s) + int (total_size pre) \<and>
         tune_buffer (snd (chain_all (pre @ c # post) s)) = tune_buffer s @ concat pre \<and>
         actions (snd (chain_all (pre @ c # post) s)) = actions s @ [PostError InputDataTooBig]"
  using assms
proof (induction pre arbitrary: s)
  case Nil
  from Nil.prems have ok: "tune_len_ok s" by (simp add: ingest_inv_def)
  from Nil.prems(3) have big: "sint (tune_len s) + int (length c) > 32768"
    by (simp add: total_size_def)
  show ?case by (simp add: chain_refuses [OF ok Nil.prems(4) big] total_size_def)
next
  case (Cons b bs)
  let ?s1 = "snd (gst_siddecfp_chain b s)"
  from Cons.prems have ok: "tune_len_ok s" and len: "int (length (tune_buffer s)) = sint (tune_len s)"
    by (simp_all add: ingest_inv_def)
  from Cons.prems(2) have fit: "sint (tune_len s) + int (length b) \<le> 32768"
    by (simp add: total_size_def)
  note a = chain_accepts [OF ok fit]
  have buf: "tune_buffer ?s1 = tune_buffer s @ b"
    using a(3) len by simp
  have inv1: "ingest_inv ?s1"
    using a(2,5) buf len by (simp add: ingest_inv_def)
  have fit1: "sint (tune_len ?s1) + int (total_size bs) \<le> 32768"
    using a(2) Cons.prems(2) by (simp add: total_size_def)
  have big1: "sint (tune_len ?s1) + int (total_size bs) + int (length c) > 32768"
    using a(2) Cons.prems(3) by (simp add: total_size_def)
  from Cons.IH [OF inv1 fit1 big1 Cons.prems(4)] a(1,2,4) buf show ?case
    by (simp add: total_size_def Let_def)
qed

lemma init_inv: "ingest_inv gst_siddecfp_init"
  by (simp add: ingest_inv_def tune_len_ok_def gst_siddecfp_init_def)


lemma first_crossing:
  "total_size bs > n \<Longrightarrow>
   \<exists>pre c post. bs = pre @ c # post \<and> total_size pre \<le> n \<and> total_size pre + length c > n"
proof (induction bs rule: rev_induct)
  case Nil
  then show ?case by (simp add: total_size_def)
next
  case (snoc x xs)
  show ?case
  proof (cases "total_size xs > n")
    case True
    from snoc.IH [OF True] obtain pre c post where
      "xs = pre @ c # post" "total_size pre \<le> n" "total_size pre + length c > n"
      by blast
    then have "xs @ [x] = pre @ c # (post @ [x]) \<and> total_size pre \<le> n \<and>
               total_size pre + length c > n"
      by simp
    then show ?thesis by blast
  next
    case False
    with snoc.prems have "xs @ [x] = xs @ x # [] \<and> total_size xs \<le> n \<and>
        total_size xs + length x > n"
      by (simp add: total_size_def)
    then show ?thesis by blast
  qed
qed

text \<open>
  C6. The chunks are pushed to a fresh element; a chunk is a buffer in memory, so its size
  is below \<open>2 ^ 63\<close>. A sequence whose total length is at most 32768 is ingested entirely
  and without error, and the stored length is then the total length. After such a sequence
  an append fails exactly when the accumulated length plus the size of the chunk exceeds
  32768, and a successful append adds exactly the size of the chunk to the stored length.
  In a longer sequence the first chunk that crosses the boundary fails with the overflow
  error: the chunks before it are stored, it and the chunks after it are not. Every
  sequence whose total length exceeds 32768 fails.
\<close>

theorem ingest_capacity:
  "(total_size pre \<le> 32768 \<longrightarrow>
      fst (chain_all pre gst_siddecfp_init) = GST_FLOW_OK \<and>
      sint (tune_len (snd (chain_all pre gst_siddecfp_init))) = int (total_size pre) \<and>
      tune_buffer (snd (chain_all pre gst_siddecfp_init)) = concat pre \<and>
      actions (snd (chain_all pre gst_siddecfp_init)) = []) \<and>
   (total_size pre \<le> 32768 \<and> length c < 2 ^ 63 \<longrightarrow>
      (fst (gst_siddecfp_chain c (snd (chain_all pre gst_siddecfp_init))) = GST_FLOW_ERROR
         \<longleftrightarrow> total_size pre + length c > 32768) \<and>
      (fst (gst_siddecfp_chain c (snd (chain_all pre gst_siddecfp_init))) = GST_FLOW_OK
         \<longleftrightarrow> total_size pre + length c \<le> 32768) \<and>
      (fst (gst_siddecfp_chain c (snd (chain_all pre gst_siddecfp_init))) = GST_FLOW_OK \<longrightarrow>
         sint (tune_len (snd (gst_siddecfp_chain c (snd (chain_all pre gst_siddecfp_init)))))
           = int (total_size pre) + int (length c))) \<and>
   (total_size pre \<le> 32768 \<and> length c < 2 ^ 63 \<and> total_size pre + length c > 32768 \<longrightarrow>
      fst (chain_all (pre @ c # post) gst_siddecfp_init) = GST_FLOW_ERROR \<and>
      sint (tune_len (snd (chain_all (pre @ c # post) gst_siddecfp_init)))
        = int (total_size pre) \<and>
      tune_buffer (snd (chain_all (pre @ c # post) gst_siddecfp_init)) = concat pre \<and>
      actions (snd (chain_all (pre @ c # post) gst_siddecfp_init))
        = [PostError InputDataTooBig]) \<and>
   (total_size bs > 32768 \<and> (\<forall>b \<in> set bs. length b < 2 ^ 63) \<longrightarrow>
      fst (chain_all bs gst_siddecfp_init) = GST_FLOW_ERROR)"
proof -
  let ?i = gst_siddecfp_init
  have z: "sint (tune_len ?i) = 0" "tune_buffer ?i = []" "actions ?i = []"
    by (simp_all add: gst_siddecfp_init_def)
  have fits: "fst (chain_all xs ?i) = GST_FLOW_OK \<and>
      sint (tune_len (snd (chain_all xs ?i))) = int (total_size xs) \<and>
      tune_buffer (snd (chain_all xs ?i)) = concat xs \<and>
      actions (snd (chain_all xs ?i)) = [] \<and> ingest_inv (snd (chain_all xs ?i))"
    if "total_size xs \<le> 32768" for xs
    using chain_all_fits [OF init_inv, of xs] that z by simp
  have one: "(fst (gst_siddecfp_chain c (snd (chain_all pre ?i))) = GST_FLOW_ERROR
         \<longleftrightarrow> total_size pre + length c > 32768) \<and>
      (fst (gst_siddecfp_chain c (snd (chain_all pre ?i))) = GST_FLOW_OK
         \<longleftrightarrow> total_size pre + length c \<le> 32768) \<and>
      (fst (gst_siddecfp_chain c (snd (chain_all pre ?i))) = GST_FLOW_OK \<longrightarrow>
         sint (tune_len (snd (gst_siddecfp_chain c (snd (chain_all pre ?i)))))
           = int (total_size pre) + int (length c))"
    if p: "total_size pre \<le> 32768" and c: "length c < 2 ^ 63"
  proof -
    let ?s = "snd (chain_all pre ?i)"
    from fits [OF p] have ok: "tune_len_ok ?s" and l: "sint (tune_len ?s) = int (total_size pre)"
      by (simp_all add: ingest_inv_def)
    show ?thesis
    proof (cases "total_size pre + length c > 32768")
      case True
      then have "sint (tune_len ?s) + int (length c) > 32768" using l by simp
      from chain_refuses [OF ok c this] True show ?thesis by simp
    next
      case False
      then have "sint (tune_len ?s) + int (length c) \<le> 32768" using l by simp
      from chain_accepts(1,2) [OF ok this] False l show ?thesis by simp
    qed
  qed
  have cross: "fst (chain_all (xs @ x # ys) ?i) = GST_FLOW_ERROR \<and>
      sint (tune_len (snd (chain_all (xs @ x # ys) ?i))) = int (total_size xs) \<and>
      tune_buffer (snd (chain_all (xs @ x # ys) ?i)) = concat xs \<and>
      actions (snd (chain_all (xs @ x # ys) ?i)) = [PostError InputDataTooBig]"
    if "total_size xs \<le> 32768" "length x < 2 ^ 63" "total_size xs + length x > 32768"
    for xs x ys
    using chain_all_crosses [OF init_inv, of xs x ys] that z by simp
  have over: "fst (chain_all bs ?i) = GST_FLOW_ERROR"
    if big: "total_size bs > 32768" and sz: "\<forall>b \<in> set bs. length b < 2 ^ 63"
  proof -
    from first_crossing [OF big] obtain xs x ys where
      d: "bs = xs @ x # ys" "total_size xs \<le> 32768" "total_size xs + length x > 32768"
      by blast
    from d(1) sz have "length x < 2 ^ 63" by simp
    from cross [OF d(2) this d(3)] d(1) show ?thesis by simp
  qed
  from fits [of pre] one cross [of pre c post] over show ?thesis by blast
qed

theorem ingest_capacity_witness:
  "fst (chain_all [replicate 32768 0] gst_siddecfp_init) = GST_FLOW_OK \<and>
   sint (tune_len (snd (chain_all [replicate 32768 0] gst_siddecfp_init))) = 32768 \<and>
   fst (gst_siddecfp_chain [1] (snd (chain_all [replicate 32768 0] gst_siddecfp_init)))
     = GST_FLOW_ERROR \<and>
   fst (chain_all [replicate 32768 0, [1], [2]] gst_siddecfp_init) = GST_FLOW_ERROR \<and>
   sint (tune_len (snd (chain_all [replicate 32768 0, [1], [2]] gst_siddecfp_init))) = 32768"
  using ingest_capacity [of "[replicate 32768 0]" "[1]" "[[2]]" "[replicate 32768 0, [1], [2]]"]
  by (simp add: total_size_def)

subsection \<open>Arithmetic of the unit converter\<close>

lemma roundtrip_arith:
  fixes V B N :: int
  assumes "0 \<le> V" "0 < B" "B \<le> N"
  shows "V - 1 \<le> ((V * N div B) * B) div N" and "((V * N div B) * B) div N \<le> V"
proof -
  let ?q = "V * N div B"
  have N: "0 < N" using assms by simp
  have eq: "?q * B = V * N - (V * N) mod B"
    by (simp add: minus_mod_eq_div_mult)
  have m: "0 \<le> (V * N) mod B" "(V * N) mod B < B"
    using assms(2) by simp_all
  have up: "?q * B \<le> V * N" using eq m by simp
  have "(?q * B) div N \<le> (V * N) div N"
    using up N by (rule zdiv_mono1)
  then show "(?q * B) div N \<le> V" using N by simp
  have "(V - 1) * N \<le> ?q * B"
  proof -
    have "(V - 1) * N = V * N - N" by (simp add: algebra_simps)
    also have "\<dots> \<le> V * N - B" using assms(3) by simp
    also have "\<dots> \<le> ?q * B" using eq m by simp
    finally show ?thesis .
  qed
  then have "((V - 1) * N) div N \<le> (?q * B) div N"
    using N by (rule zdiv_mono1)
  then show "V - 1 \<le> (?q * B) div N" using N by simp
qed

lemma scale_exact:
  assumes "0 < sint d" "0 \<le> sint n" "uint v * sint n div sint d \<le> 2 ^ 64 - 1"
  shows "uint (gst_util_uint64_scale_int v n d) = uint v * sint n div sint d"
proof -
  let ?q = "uint v * sint n div sint d"
  have nonneg: "0 \<le> ?q"
    using assms(1,2) by (simp add: pos_imp_zdiv_nonneg_iff)
  have "gst_util_uint64_scale_int v n d = word_of_int ?q"
    using assms by (simp add: gst_util_uint64_scale_int_def Let_def)
  then have "uint (gst_util_uint64_scale_int v n d) = ?q mod 2 ^ 64"
    by (simp only: uint_word_of_int) simp
  with nonneg assms(3) show ?thesis by simp
qed

lemma sint_small:
  fixes w :: "32 word"
  assumes "uint w < 2 ^ 31"
  shows "sint w = uint w"
proof -
  have "- (2 ^ 31) \<le> uint w" by (rule order_trans [of _ 0]) simp_all
  then have "signed_take_bit 31 (uint w) = uint w"
    using assms by (rule signed_take_bit_int_eq_self)
  then show ?thesis by (simp add: sint_uint)
qed

lemma sint_small64:
  fixes w :: "64 word"
  assumes "uint w < 2 ^ 63"
  shows "sint w = uint w"
proof -
  have "- (2 ^ 63) \<le> uint w" by (rule order_trans [of _ 0]) simp_all
  then have "signed_take_bit 63 (uint w) = uint w"
    using assms by (rule signed_take_bit_int_eq_self)
  then show ?thesis by (simp add: sint_uint)
qed

lemma negotiated_width:
  assumes "negotiated cfg"
  shows "bytes_per_sample_of cfg = 2 * playback cfg"
    and "sint (bytes_per_sample_of cfg) = 2 * uint (playback cfg)"
    and "uint (playback cfg) = 1 \<or> uint (playback cfg) = 2"
  using assms by (auto simp: negotiated_def bytes_per_sample_of_def MONO_def STEREO_def)

lemma negotiated_rate:
  assumes "negotiated cfg"
  shows "8000 \<le> uint (frequency cfg)" and "uint (frequency cfg) \<le> 48000"
  using assms by (simp_all add: negotiated_def word_le_def)

lemma negotiated_byterate:
  assumes "negotiated cfg"
  shows "sint (bytes_per_sample_of cfg * frequency cfg)
           = 2 * uint (playback cfg) * uint (frequency cfg)"
proof -
  note w = negotiated_width [OF assms] and r = negotiated_rate [OF assms]
  have b: "uint (bytes_per_sample_of cfg) = 2 * uint (playback cfg)"
    using w(1,3) by (auto simp: uint_word_ariths)
  have le: "2 * uint (playback cfg) * uint (frequency cfg) \<le> 192000"
    using w(3) r(2) by auto
  have ge: "0 \<le> 2 * uint (playback cfg) * uint (frequency cfg)" by simp
  have "uint (bytes_per_sample_of cfg * frequency cfg)
          = (2 * uint (playback cfg) * uint (frequency cfg)) mod 2 ^ 32"
    by (simp add: uint_word_ariths b)
  also have "\<dots> = 2 * uint (playback cfg) * uint (frequency cfg)"
    using le ge by simp
  finally have u: "uint (bytes_per_sample_of cfg * frequency cfg)
          = 2 * uint (playback cfg) * uint (frequency cfg)" .
  with le have "uint (bytes_per_sample_of cfg * frequency cfg) < 2 ^ 31" by simp
  from sint_small [OF this] u show ?thesis by simp
qed


lemma sint_nonneg_uint64:
  fixes w :: "64 word"
  assumes "0 \<le> sint w"
  shows "uint w = sint w" and "uint w < 2 ^ 63"
proof -
  have s: "sint w = (uint w + 2 ^ 63) mod 2 ^ 64 - 2 ^ 63"
    using int_word_sint [of "uint w", where 'a = 64] by simp
  show lt: "uint w < 2 ^ 63"
  proof (rule ccontr)
    assume "\<not> uint w < 2 ^ 63"
    then have ge: "2 ^ 63 \<le> uint w" by simp
    have "uint w < 2 ^ 64" using uint_lt2p [of w] by simp
    then have "(uint w + 2 ^ 63) mod 2 ^ 64 = uint w - 2 ^ 63"
      using ge by (simp add: mod_pos_geq)
    with s have "sint w = uint w - 2 ^ 64" by simp
    with \<open>uint w < 2 ^ 64\<close> assms show False by simp
  qed
  from sint_small64 [OF lt] show "uint w = sint w" by simp
qed

lemma second_value: "sint GST_SECOND = 1000000000"
  by (simp add: GST_SECOND_def)

lemma convert_bytes_to_time:
  assumes "negotiated cfg"
  shows "gst_siddecfp_src_convert cfg GST_FORMAT_BYTES v GST_FORMAT_TIME =
           Some (gst_util_uint64_scale_int v GST_SECOND
                   (bytes_per_sample_of cfg * frequency cfg))"
proof -
  have "0 < sint (bytes_per_sample_of cfg * frequency cfg)"
    using negotiated_byterate [OF assms] negotiated_width(3) [OF assms]
      negotiated_rate(1) [OF assms] by auto
  then have "bytes_per_sample_of cfg * frequency cfg \<noteq> 0" by auto
  then show ?thesis by (simp add: gst_siddecfp_src_convert_def Let_def)
qed

lemma convert_time_to_bytes:
  "gst_siddecfp_src_convert cfg GST_FORMAT_TIME t GST_FORMAT_BYTES =
     Some (gst_util_uint64_scale_int t (bytes_per_sample_of cfg * frequency cfg) GST_SECOND)"
  by (simp add: gst_siddecfp_src_convert_def Let_def)

lemma convert_bytes_to_samples:
  assumes "negotiated cfg"
  shows "gst_siddecfp_src_convert cfg GST_FORMAT_BYTES v GST_FORMAT_DEFAULT =
           Some (word_of_int (sint v sdiv (2 * uint (playback cfg))))"
proof -
  have "bytes_per_sample_of cfg \<noteq> 0"
    using negotiated_width(2,3) [OF assms] by auto
  then show ?thesis
    by (simp add: gst_siddecfp_src_convert_def Let_def negotiated_width(2) [OF assms])
qed

subsection \<open>BYTES to TIME and back\<close>

text \<open>
  C5, as stated, fails: the claim is made for all positive values. The converter works on
  64-bit values and its scaling saturates: \<open>2 ^ 62\<close> bytes at 8000 Hz mono convert to the
  saturated time \<open>G_MAXUINT64\<close> (which reads \<open>- 1\<close> as a \<open>gint64\<close>), and that time
  converts back to 295147905179352 bytes. No 64-bit time converts back to more than that at
  this rate, so the way back cannot reach \<open>2 ^ 62\<close> whatever the scaling returns for a
  quotient that does not fit.
\<close>

theorem bytes_time_roundtrip_counterexample:
  "0 < sint (2 ^ 62 :: gint64) \<and>
   gst_siddecfp_src_convert mono_8000 GST_FORMAT_BYTES (2 ^ 62) GST_FORMAT_TIME = Some (- 1) \<and>
   gst_siddecfp_src_convert mono_8000 GST_FORMAT_TIME (- 1) GST_FORMAT_BYTES
     = Some 295147905179352 \<and>
   \<not> \<bar>sint (295147905179352 :: gint64) - sint (2 ^ 62 :: gint64)\<bar>
       \<le> sint (bytes_per_sample_of mono_8000)"
  by code_simp

text \<open>
  C5, amended. For every positive value, rate from 8000 to 48000 and channel count 1 or 2
  such that the time \<open>value * 10^9 / (2 * channels * rate)\<close> fits 64 bits, both conversions
  succeed and the value that comes back is not negative, is not above the original and is
  at most one byte below it, hence within \<open>bytes_per_sample\<close> of it.
\<close>

theorem bytes_time_roundtrip:
  assumes cfg: "negotiated cfg" and pos: "0 < sint v"
    and fits: "uint v * 1000000000 div (2 * uint (playback cfg) * uint (frequency cfg))
                 \<le> 2 ^ 64 - 1"
  shows "\<exists>t v'. gst_siddecfp_src_convert cfg GST_FORMAT_BYTES v GST_FORMAT_TIME = Some t \<and>
                 gst_siddecfp_src_convert cfg GST_FORMAT_TIME t GST_FORMAT_BYTES = Some v' \<and>
                 0 \<le> sint v' \<and> sint v - 1 \<le> sint v' \<and> sint v' \<le> sint v \<and>
                 \<bar>sint v' - sint v\<bar> \<le> sint (bytes_per_sample_of cfg)"
proof -
  let ?B = "2 * uint (playback cfg) * uint (frequency cfg)"
  let ?d = "bytes_per_sample_of cfg * frequency cfg"
  let ?t = "gst_util_uint64_scale_int v GST_SECOND ?d"
  let ?v' = "gst_util_uint64_scale_int ?t ?d GST_SECOND"
  note w = negotiated_width [OF cfg] and r = negotiated_rate [OF cfg]
  have d: "sint ?d = ?B" by (rule negotiated_byterate [OF cfg])
  have B: "0 < ?B" "?B \<le> 1000000000" using w(3) r by auto
  from pos have V: "uint v = sint v" "uint v < 2 ^ 63"
    using sint_nonneg_uint64 [of v] by simp_all
  have t: "uint ?t = uint v * 1000000000 div ?B"
    using scale_exact [of ?d GST_SECOND v] B(1) fits by (simp add: d second_value)
  have rt: "uint v - 1 \<le> uint ?t * ?B div 1000000000" "uint ?t * ?B div 1000000000 \<le> uint v"
    using roundtrip_arith [of "uint v" ?B 1000000000] B by (simp_all add: t)
  have "uint ?t * ?B div 1000000000 \<le> 2 ^ 64 - 1"
    using rt(2) V(2) by simp
  then have v': "uint ?v' = uint ?t * ?B div 1000000000"
    using scale_exact [of GST_SECOND ?d ?t] B(1) by (simp add: d second_value)
  have "uint ?v' < 2 ^ 63" using v' rt(2) V(2) by simp
  from sint_small64 [OF this] have s: "sint ?v' = uint ?v'" .
  have nonneg: "0 \<le> sint ?v'" using s by simp
  have lo: "sint v - 1 \<le> sint ?v'" using s v' rt(1) V(1) by simp
  have hi: "sint ?v' \<le> sint v" using s v' rt(2) V(1) by simp
  have width: "1 \<le> sint (bytes_per_sample_of cfg)" using w(2,3) by auto
  have "\<bar>sint ?v' - sint v\<bar> \<le> sint (bytes_per_sample_of cfg)"
    using lo hi width by simp
  with nonneg lo hi convert_bytes_to_time [OF cfg, of v] convert_time_to_bytes [of cfg ?t]
  show ?thesis by blast
qed

theorem bytes_time_roundtrip_witness:
  "negotiated default_config \<and> 0 < sint (4097 :: gint64) \<and>
   uint (4097 :: gint64) * 1000000000
     div (2 * uint (playback default_config) * uint (frequency default_config)) \<le> 2 ^ 64 - 1 \<and>
   (\<exists>t v'. gst_siddecfp_src_convert default_config GST_FORMAT_BYTES 4097 GST_FORMAT_TIME = Some t \<and>
      gst_siddecfp_src_convert default_config GST_FORMAT_TIME t GST_FORMAT_BYTES = Some v' \<and>
      0 \<le> sint v' \<and> sint (4097 :: gint64) - 1 \<le> sint v' \<and> sint v' \<le> sint (4097 :: gint64) \<and>
      \<bar>sint v' - sint (4097 :: gint64)\<bar> \<le> sint (bytes_per_sample_of default_config))"
proof -
  have n: "negotiated default_config" by code_simp
  have p: "0 < sint (4097 :: gint64)" by simp
  have f: "uint (4097 :: gint64) * 1000000000
             div (2 * uint (playback default_config) * uint (frequency default_config))
             \<le> 2 ^ 64 - 1" by code_simp
  from n p f bytes_time_roundtrip [OF n p f] show ?thesis by blast
qed

subsection \<open>One iteration of the production task\<close>

lemma play_loop_total:
  "total_bytes (snd (play_loop play ret s)) =
     total_bytes s + ucast (play (blocksize s div 2) * 2)"
  by (simp add: play_loop_def Let_def)

lemma play_loop_log_prefix:
  "take (length (actions s) + 2) (actions (snd (play_loop play ret s))) =
     actions s @ [PlayerPlay (blocksize s div 2), PushBuffer (fst (play_loop play ret s))]"
  by (simp add: play_loop_def Let_def)

lemma play_loop_stamps:
  "buf_offset (fst (play_loop play ret s)) =
     stamp_or G_MAXUINT64
       (gst_siddecfp_src_convert (config s) GST_FORMAT_BYTES (total_bytes s) GST_FORMAT_DEFAULT)"
  "buf_timestamp (fst (play_loop play ret s)) =
     stamp_or G_MAXUINT64
       (gst_siddecfp_src_convert (config s) GST_FORMAT_BYTES (total_bytes s) GST_FORMAT_TIME)"
  "buf_offset_end (fst (play_loop play ret s)) =
     stamp_or G_MAXUINT64
       (gst_siddecfp_src_convert (config s) GST_FORMAT_BYTES
          (total_bytes s + ucast (play (blocksize s div 2) * 2)) GST_FORMAT_DEFAULT)"
  "buf_duration (fst (play_loop play ret s)) =
     (case gst_siddecfp_src_convert (config s) GST_FORMAT_BYTES
             (total_bytes s + ucast (play (blocksize s div 2) * 2)) GST_FORMAT_TIME of
        Some value \<Rightarrow>
          value - stamp_or 0
            (gst_siddecfp_src_convert (config s) GST_FORMAT_BYTES (total_bytes s)
               GST_FORMAT_TIME)
      | None \<Rightarrow> G_MAXUINT64)"
  by (simp_all add: play_loop_def Let_def gst_buffer_new_and_alloc_def split: option.split)

lemma position_advance:
  fixes tb :: "64 word" and pb :: "32 word"
  assumes "uint tb + uint pb < 2 ^ 64"
  shows "uint (tb + ucast pb) = uint tb + uint pb"
proof -
  have u: "uint (ucast pb :: 64 word) = uint pb"
    by (rule uint_up_ucast) (simp add: is_up)
  have "uint (tb + ucast pb) = (uint tb + uint pb) mod 2 ^ 64"
    by (simp add: uint_word_ariths u)
  with assms show ?thesis by simp
qed

lemma produced_bytes:
  fixes r n :: "32 word"
  assumes "r \<le> n div 2"
  shows "uint (r * 2) = 2 * uint r"
proof -
  have "uint (n div 2) = uint n div 2" by (simp add: uint_div)
  moreover have "uint n < 2 ^ 32" using uint_lt2p [of n] by simp
  ultimately have "uint (n div 2) < 2 ^ 31" by simp
  moreover have "uint r \<le> uint (n div 2)" using assms by (simp add: word_le_def)
  ultimately have "2 * uint r < 2 ^ 32" by simp
  moreover have "uint (r * 2) = (uint r * 2) mod 2 ^ 32"
    by (simp add: uint_word_ariths)
  ultimately show ?thesis by simp
qed

lemma sample_offset:
  fixes tb :: "64 word"
  assumes "negotiated cfg" "uint tb < 2 ^ 63"
  shows "gst_siddecfp_src_convert cfg GST_FORMAT_BYTES tb GST_FORMAT_DEFAULT
           = Some (word_of_int (uint tb div (2 * uint (playback cfg))))"
    and "uint (word_of_int (uint tb div (2 * uint (playback cfg))) :: 64 word)
           = uint tb div (2 * uint (playback cfg))"
proof -
  let ?B = "2 * uint (playback cfg)"
  have B: "0 < ?B" using negotiated_width(3) [OF assms(1)] by auto
  have s: "sint tb = uint tb" by (rule sint_small64 [OF assms(2)])
  have "sint tb sdiv ?B = uint tb div ?B"
    using B by (simp add: s signed_divide_int_def sgn_if div_eq_0_iff)
  then show "gst_siddecfp_src_convert cfg GST_FORMAT_BYTES tb GST_FORMAT_DEFAULT
           = Some (word_of_int (uint tb div ?B))"
    by (simp add: convert_bytes_to_samples [OF assms(1)])
  have "0 \<le> uint tb div ?B" using B by (simp add: pos_imp_zdiv_nonneg_iff)
  moreover have "uint tb div ?B \<le> uint tb"
    using zdiv_mono2 [of "uint tb" 1 ?B] B by simp
  moreover have "uint tb < 2 ^ 64" using uint_lt2p [of tb] by simp
  ultimately have "(uint tb div ?B) mod 2 ^ 64 = uint tb div ?B" by simp
  then show "uint (word_of_int (uint tb div ?B) :: 64 word) = uint tb div ?B"
    by (simp only: uint_word_of_int) simp
qed

text \<open>
  C4. In every iteration the emulator is asked for \<open>blocksize / 2\<close> samples; the position
  advances by the bytes produced, twice the number of samples the emulator returns (in the
  arithmetic of the 32-bit byte count and the 64-bit position; in plain numbers when the
  emulator returns no more than it was asked for and the position does not pass \<open>2 ^ 64\<close>);
  offset and timestamp are the conversions of the position before the advance, end offset
  and duration come from the conversions of the position after it, the duration being the
  time after minus the timestamp. With one or two negotiated channels all four conversions
  succeed.
\<close>

theorem play_loop_iteration:
  "take (length (actions s) + 2) (actions (snd (play_loop play ret s))) =
     actions s @ [PlayerPlay (blocksize s div 2), PushBuffer (fst (play_loop play ret s))] \<and>
   total_bytes (snd (play_loop play ret s)) =
     total_bytes s + ucast (play (blocksize s div 2) * 2) \<and>
   buf_offset (fst (play_loop play ret s)) =
     stamp_or G_MAXUINT64
       (gst_siddecfp_src_convert (config s) GST_FORMAT_BYTES (total_bytes s) GST_FORMAT_DEFAULT) \<and>
   buf_timestamp (fst (play_loop play ret s)) =
     stamp_or G_MAXUINT64
       (gst_siddecfp_src_convert (config s) GST_FORMAT_BYTES (total_bytes s) GST_FORMAT_TIME) \<and>
   buf_offset_end (fst (play_loop play ret s)) =
     stamp_or G_MAXUINT64
       (gst_siddecfp_src_convert (config s) GST_FORMAT_BYTES
          (total_bytes (snd (play_loop play ret s))) GST_FORMAT_DEFAULT) \<and>
   buf_duration (fst (play_loop play ret s)) =
     (case gst_siddecfp_src_convert (config s) GST_FORMAT_BYTES
             (total_bytes (snd (play_loop play ret s))) GST_FORMAT_TIME of
        Some value \<Rightarrow>
          value - stamp_or 0
            (gst_siddecfp_src_convert (config s) GST_FORMAT_BYTES (total_bytes s)
               GST_FORMAT_TIME)
      | None \<Rightarrow> G_MAXUINT64) \<and>
   (play (blocksize s div 2) \<le> blocksize s div 2 \<and>
    uint (total_bytes s) + 2 * uint (play (blocksize s div 2)) < 2 ^ 64 \<longrightarrow>
      uint (total_bytes (snd (play_loop play ret s))) =
        uint (total_bytes s) + 2 * uint (play (blocksize s div 2))) \<and>
   (negotiated (config s) \<longrightarrow>
      gst_siddecfp_src_convert (config s) GST_FORMAT_BYTES (total_bytes s) GST_FORMAT_DEFAULT
        = Some (buf_offset (fst (play_loop play ret s))) \<and>
      gst_siddecfp_src_convert (config s) GST_FORMAT_BYTES (total_bytes s) GST_FORMAT_TIME
        = Some (buf_timestamp (fst (play_loop play ret s))) \<and>
      gst_siddecfp_src_convert (config s) GST_FORMAT_BYTES
          (total_bytes (snd (play_loop play ret s))) GST_FORMAT_DEFAULT
        = Some (buf_offset_end (fst (play_loop play ret s))) \<and>
      gst_siddecfp_src_convert (config s) GST_FORMAT_BYTES
          (total_bytes (snd (play_loop play ret s))) GST_FORMAT_TIME
        = Some (buf_timestamp (fst (play_loop play ret s))
                + buf_duration (fst (play_loop play ret s))))"
proof -
  let ?r = "play_loop play ret s"
  let ?pb = "play (blocksize s div 2) * 2"
  note st = play_loop_stamps [of play ret s]
  have tot: "total_bytes (snd ?r) = total_bytes s + ucast ?pb" by (rule play_loop_total)
  have adv: "uint (total_bytes (snd ?r)) = uint (total_bytes s) + 2 * uint (play (blocksize s div 2))"
    if c: "play (blocksize s div 2) \<le> blocksize s div 2"
      and n: "uint (total_bytes s) + 2 * uint (play (blocksize s div 2)) < 2 ^ 64"
  proof -
    have "uint ?pb = 2 * uint (play (blocksize s div 2))" by (rule produced_bytes [OF c])
    with n position_advance [of "total_bytes s" ?pb] tot show ?thesis by simp
  qed
  have neg: "gst_siddecfp_src_convert (config s) GST_FORMAT_BYTES (total_bytes s) GST_FORMAT_DEFAULT
        = Some (buf_offset (fst ?r)) \<and>
      gst_siddecfp_src_convert (config s) GST_FORMAT_BYTES (total_bytes s) GST_FORMAT_TIME
        = Some (buf_timestamp (fst ?r)) \<and>
      gst_siddecfp_src_convert (config s) GST_FORMAT_BYTES (total_bytes (snd ?r)) GST_FORMAT_DEFAULT
        = Some (buf_offset_end (fst ?r)) \<and>
      gst_siddecfp_src_convert (config s) GST_FORMAT_BYTES (total_bytes (snd ?r)) GST_FORMAT_TIME
        = Some (buf_timestamp (fst ?r) + buf_duration (fst ?r))"
    if c: "negotiated (config s)"
    by (simp add: st tot convert_bytes_to_samples [OF c] convert_bytes_to_time [OF c]
        stamp_or_def)
  from st tot adv neg play_loop_log_prefix [of s play ret] show ?thesis by simp
qed

theorem play_loop_iteration_witness:
  "short_emulator (blocksize playing_state div 2) \<le> blocksize playing_state div 2 \<and>
   uint (total_bytes playing_state)
     + 2 * uint (short_emulator (blocksize playing_state div 2)) < 2 ^ 64 \<and>
   negotiated (config playing_state) \<and>
   uint (total_bytes (snd (play_loop short_emulator GST_FLOW_OK playing_state))) = 4094 \<and>
   gst_siddecfp_src_convert (config playing_state) GST_FORMAT_BYTES
       (total_bytes (snd (play_loop short_emulator GST_FLOW_OK playing_state))) GST_FORMAT_DEFAULT
     = Some (buf_offset_end (fst (play_loop short_emulator GST_FLOW_OK playing_state)))"
proof -
  let ?r = "play_loop short_emulator GST_FLOW_OK playing_state"
  have a: "short_emulator (blocksize playing_state div 2) \<le> blocksize playing_state div 2"
    by code_simp
  have b: "uint (total_bytes playing_state)
     + 2 * uint (short_emulator (blocksize playing_state div 2)) < 2 ^ 64"
    by code_simp
  have c: "negotiated (config playing_state)" by code_simp
  have d: "uint (total_bytes playing_state)
     + 2 * uint (short_emulator (blocksize playing_state div 2)) = 4094"
    by code_simp
  from play_loop_iteration [of playing_state short_emulator GST_FLOW_OK] a b c
  have "uint (total_bytes (snd ?r)) =
          uint (total_bytes playing_state)
            + 2 * uint (short_emulator (blocksize playing_state div 2))"
    and "gst_siddecfp_src_convert (config playing_state) GST_FORMAT_BYTES
          (total_bytes (snd ?r)) GST_FORMAT_DEFAULT = Some (buf_offset_end (fst ?r))"
    by blast+
  with a b c d show ?thesis by (simp only: simp_thms)
qed

subsection \<open>Consecutive buffers\<close>

lemma sample_offset_mono:
  fixes a b :: "64 word"
  assumes cfg: "negotiated cfg" and b: "uint b < 2 ^ 63" and le: "uint a \<le> uint b"
  shows "stamp_or G_MAXUINT64
           (gst_siddecfp_src_convert cfg GST_FORMAT_BYTES a GST_FORMAT_DEFAULT)
         \<le> stamp_or G_MAXUINT64
           (gst_siddecfp_src_convert cfg GST_FORMAT_BYTES b GST_FORMAT_DEFAULT)"
    and "uint a + sint (bytes_per_sample_of cfg) \<le> uint b \<Longrightarrow>
         stamp_or G_MAXUINT64
           (gst_siddecfp_src_convert cfg GST_FORMAT_BYTES a GST_FORMAT_DEFAULT)
         < stamp_or G_MAXUINT64
           (gst_siddecfp_src_convert cfg GST_FORMAT_BYTES b GST_FORMAT_DEFAULT)"
proof -
  let ?B = "2 * uint (playback cfg)"
  have a: "uint a < 2 ^ 63" using b le by simp
  have B: "0 < ?B" using negotiated_width(3) [OF cfg] by auto
  note oa = sample_offset [OF cfg a] and ob = sample_offset [OF cfg b]
  have "uint a div ?B \<le> uint b div ?B" using le B by (rule zdiv_mono1)
  then show "stamp_or G_MAXUINT64
           (gst_siddecfp_src_convert cfg GST_FORMAT_BYTES a GST_FORMAT_DEFAULT)
         \<le> stamp_or G_MAXUINT64
           (gst_siddecfp_src_convert cfg GST_FORMAT_BYTES b GST_FORMAT_DEFAULT)"
    by (simp add: oa ob stamp_or_def word_le_def)
  assume "uint a + sint (bytes_per_sample_of cfg) \<le> uint b"
  then have "uint a + ?B \<le> uint b" by (simp add: negotiated_width(2) [OF cfg])
  then have "(uint a + ?B) div ?B \<le> uint b div ?B" using B by (rule zdiv_mono1)
  moreover have "(uint a + ?B) div ?B = uint a div ?B + 1" using B by simp
  ultimately have "uint a div ?B < uint b div ?B" by simp
  then show "stamp_or G_MAXUINT64
           (gst_siddecfp_src_convert cfg GST_FORMAT_BYTES a GST_FORMAT_DEFAULT)
         < stamp_or G_MAXUINT64
           (gst_siddecfp_src_convert cfg GST_FORMAT_BYTES b GST_FORMAT_DEFAULT)"
    by (simp add: oa ob stamp_or_def word_less_def)
qed

text \<open>
  C3, as stated, fails: the claim says that the start offsets of successive buffers increase
  strictly and that the position never decreases. With a block size of one byte the
  emulator is asked for no sample, the position stays where it is and two successive
  buffers start at the same offset. A position two bytes below \<open>2 ^ 64\<close> wraps around
  to 0 when two more bytes are produced. And a position of \<open>2 ^ 63\<close> or more is negative
  as the \<open>gint64\<close> the converter divides: from four bytes below \<open>2 ^ 64\<close> in stereo a
  buffer starts at offset \<open>2 ^ 64 - 1\<close> and the next one, two bytes later and with no
  wrap of the position, at offset 0.
\<close>

theorem consecutive_buffers_counterexample:
  "pushed_buffers (run_task [(short_emulator, GST_FLOW_OK), (short_emulator, GST_FLOW_OK)]
      one_byte_blocks) =
     [\<lparr>buf_size = 1, buf_offset = 0, buf_timestamp = 0, buf_offset_end = 0, buf_duration = 0\<rparr>,
      \<lparr>buf_size = 1, buf_offset = 0, buf_timestamp = 0, buf_offset_end = 0, buf_duration = 0\<rparr>] \<and>
   \<not> (0 :: guint64) < 0 \<and>
   total_bytes position_at_end = 18446744073709551614 \<and>
   total_bytes (snd (play_loop short_emulator GST_FLOW_OK position_at_end)) = 0 \<and>
   \<not> total_bytes position_at_end
       \<le> total_bytes (snd (play_loop short_emulator GST_FLOW_OK position_at_end)) \<and>
   total_bytes position_past_sign = 18446744073709551612 \<and>
   total_bytes (snd (play_loop short_emulator GST_FLOW_OK position_past_sign))
     = 18446744073709551614 \<and>
   buf_offset (fst (play_loop short_emulator GST_FLOW_OK position_past_sign))
     = 18446744073709551615 \<and>
   buf_offset (fst (play_loop short_emulator GST_FLOW_OK
      (snd (play_loop short_emulator GST_FLOW_OK position_past_sign)))) = 0 \<and>
   \<not> buf_offset (fst (play_loop short_emulator GST_FLOW_OK position_past_sign))
       \<le> buf_offset (fst (play_loop short_emulator GST_FLOW_OK
             (snd (play_loop short_emulator GST_FLOW_OK position_past_sign))))"
  by code_simp

text \<open>
  C3, amended. The end offset of a buffer is the start offset of the next one, always. When
  an iteration produces no bytes, the next buffer starts at the same offset. With one or
  two negotiated channels and as long as the position, with the bytes just produced, stays
  below \<open>2 ^ 63\<close>, the start offsets of successive buffers do not decrease, and they
  increase strictly whenever the iteration produced at least one full sample frame
  (\<open>bytes_per_sample\<close> bytes). As long as the position, with the bytes just produced, stays
  below \<open>2 ^ 64\<close>, it does not decrease. A session that starts successfully starts at
  position 0.
\<close>

theorem consecutive_buffers:
  "buf_offset_end (fst (play_loop p1 r1 s)) =
     buf_offset (fst (play_loop p2 r2 (snd (play_loop p1 r1 s)))) \<and>
   (p1 (blocksize s div 2) * 2 = 0 \<longrightarrow>
      buf_offset (fst (play_loop p2 r2 (snd (play_loop p1 r1 s)))) =
        buf_offset (fst (play_loop p1 r1 s)) \<and>
      total_bytes (snd (play_loop p1 r1 s)) = total_bytes s) \<and>
   (uint (total_bytes s) + uint (p1 (blocksize s div 2) * 2) < 2 ^ 64 \<longrightarrow>
      total_bytes s \<le> total_bytes (snd (play_loop p1 r1 s))) \<and>
   (negotiated (config s) \<and>
    uint (total_bytes s) + uint (p1 (blocksize s div 2) * 2) < 2 ^ 63 \<longrightarrow>
      buf_offset (fst (play_loop p1 r1 s)) \<le>
        buf_offset (fst (play_loop p2 r2 (snd (play_loop p1 r1 s)))) \<and>
      (sint (bytes_per_sample_of (config s)) \<le> uint (p1 (blocksize s div 2) * 2) \<longrightarrow>
         buf_offset (fst (play_loop p1 r1 s)) <
           buf_offset (fst (play_loop p2 r2 (snd (play_loop p1 r1 s)))))) \<and>
   (failed_step env = None \<longrightarrow> total_bytes (snd (start_play_tune env s)) = 0)"
proof -
  let ?s1 = "snd (play_loop p1 r1 s)"
  let ?pb = "p1 (blocksize s div 2) * 2"
  have tot: "total_bytes ?s1 = total_bytes s + ucast ?pb" by (rule play_loop_total)
  have contiguous: "buf_offset_end (fst (play_loop p1 r1 s)) =
     buf_offset (fst (play_loop p2 r2 ?s1))"
    by (simp add: play_loop_stamps play_loop_config tot)
  have idle: "buf_offset (fst (play_loop p2 r2 ?s1)) = buf_offset (fst (play_loop p1 r1 s)) \<and>
      total_bytes ?s1 = total_bytes s"
    if "?pb = 0"
    using that by (simp add: play_loop_stamps play_loop_config tot)
  have position: "total_bytes s \<le> total_bytes ?s1"
    if "uint (total_bytes s) + uint ?pb < 2 ^ 64"
    using position_advance [OF that] by (simp add: tot word_le_def)
  have offsets: "buf_offset (fst (play_loop p1 r1 s)) \<le> buf_offset (fst (play_loop p2 r2 ?s1)) \<and>
      (sint (bytes_per_sample_of (config s)) \<le> uint ?pb \<longrightarrow>
         buf_offset (fst (play_loop p1 r1 s)) < buf_offset (fst (play_loop p2 r2 ?s1)))"
    if cfg: "negotiated (config s)" and n: "uint (total_bytes s) + uint ?pb < 2 ^ 63"
  proof -
    have "uint (total_bytes s) + uint ?pb < 2 ^ 64"
      using n by (rule less_trans) simp
    from position_advance [OF this]
    have u: "uint (total_bytes ?s1) = uint (total_bytes s) + uint ?pb" by (simp add: tot)
    have b: "uint (total_bytes ?s1) < 2 ^ 63" using u n by simp
    have le: "uint (total_bytes s) \<le> uint (total_bytes ?s1)" using u by simp
    from sample_offset_mono [OF cfg b le] u show ?thesis
      by (simp add: play_loop_stamps play_loop_config tot)
  qed
  have start: "total_bytes (snd (start_play_tune env s)) = 0" if "failed_step env = None"
    using that by (rule start_play_tune_built(2))
  from contiguous idle position offsets start show ?thesis by blast
qed

theorem consecutive_buffers_witness:
  "uint (total_bytes playing_state) + uint (short_emulator (blocksize playing_state div 2) * 2)
     < 2 ^ 63 \<and>
   negotiated (config playing_state) \<and>
   sint (bytes_per_sample_of (config playing_state))
     \<le> uint (short_emulator (blocksize playing_state div 2) * 2) \<and>
   failed_step good_session = None \<and>
   buf_offset_end (fst (play_loop short_emulator GST_FLOW_OK playing_state)) =
     buf_offset (fst (play_loop short_emulator GST_FLOW_OK
        (snd (play_loop short_emulator GST_FLOW_OK playing_state)))) \<and>
   buf_offset (fst (play_loop short_emulator GST_FLOW_OK playing_state)) <
     buf_offset (fst (play_loop short_emulator GST_FLOW_OK
        (snd (play_loop short_emulator GST_FLOW_OK playing_state)))) \<and>
   total_bytes playing_state
     \<le> total_bytes (snd (play_loop short_emulator GST_FLOW_OK playing_state)) \<and>
   total_bytes (snd (start_play_tune good_session playing_state)) = 0 \<and>
   short_emulator (blocksize one_byte_blocks div 2) * 2 = 0 \<and>
   buf_offset (fst (play_loop short_emulator GST_FLOW_OK
        (snd (play_loop short_emulator GST_FLOW_OK one_byte_blocks)))) =
     buf_offset (fst (play_loop short_emulator GST_FLOW_OK one_byte_blocks))"
proof -
  have a: "uint (total_bytes playing_state)
      + uint (short_emulator (blocksize playing_state div 2) * 2) < 2 ^ 63"
    by code_simp
  then have a': "uint (total_bytes playing_state)
      + uint (short_emulator (blocksize playing_state div 2) * 2) < 2 ^ 64"
    by (rule less_trans) simp
  have b: "negotiated (config playing_state)" by code_simp
  have c: "sint (bytes_per_sample_of (config playing_state))
     \<le> uint (short_emulator (blocksize playing_state div 2) * 2)"
    by code_simp
  have d: "failed_step good_session = None" by code_simp
  have e: "short_emulator (blocksize one_byte_blocks div 2) * 2 = 0" by code_simp
  from consecutive_buffers
    [of short_emulator GST_FLOW_OK playing_state short_emulator GST_FLOW_OK good_session]
    a a' b c d
  have first: "buf_offset_end (fst (play_loop short_emulator GST_FLOW_OK playing_state)) =
     buf_offset (fst (play_loop short_emulator GST_FLOW_OK
        (snd (play_loop short_emulator GST_FLOW_OK playing_state))))"
    "buf_offset (fst (play_loop short_emulator GST_FLOW_OK playing_state)) <
     buf_offset (fst (play_loop short_emulator GST_FLOW_OK
        (snd (play_loop short_emulator GST_FLOW_OK playing_state))))"
    "total_bytes playing_state
     \<le> total_bytes (snd (play_loop short_emulator GST_FLOW_OK playing_state))"
    "total_bytes (snd (start_play_tune good_session playing_state)) = 0"
    by blast+
  from consecutive_buffers
    [of short_emulator GST_FLOW_OK one_byte_blocks short_emulator GST_FLOW_OK good_session] e
  have second: "buf_offset (fst (play_loop short_emulator GST_FLOW_OK
        (snd (play_loop short_emulator GST_FLOW_OK one_byte_blocks)))) =
     buf_offset (fst (play_loop short_emulator GST_FLOW_OK one_byte_blocks))"
    by blast
  from a b c d e first second show ?thesis by (simp only: simp_thms)
qed

end
